theory Spec2Isabelle
  imports Complex_Main "HOL-Library.Word"
begin

unbundle bit_operations_syntax

section \<open>Data model\<close>

text \<open>
  The engine of \<^verbatim>\<open>src/Math/SPH.cpp\<close> is embedded function by function.

  \<^item> The C++ type \<^verbatim>\<open>float\<close> is read as \<^typ>\<open>real\<close>: arithmetic is exact, there is no
    rounding, no NaN and no infinity. Every statement below about a \<^verbatim>\<open>float\<close> value is a
    statement about this idealised arithmetic.
  \<^item> \<^verbatim>\<open>Vec3<T>\<close> (\<^verbatim>\<open>T _data[3]\<close>) is a triple.
  \<^item> \<^verbatim>\<open>int\<close> is a 32-bit word with wrap-around; \<^verbatim>\<open>uint32_t\<close> and \<^verbatim>\<open>size_t\<close> values
    that index the vectors are natural numbers (the particle count is taken to be below
    \<open>2 ^ 32\<close>).
  \<^item> A \<^verbatim>\<open>std::vector\<close> is a list. Reading a vector at or past its size, dividing an
    integer by zero and running an iterator past \<^verbatim>\<open>end()\<close> have no defined result in
    C++; the model returns an \<open>error\<close> there.
\<close>

type_synonym 'a Vec3 = "'a \<times> 'a \<times> 'a"

record Particle =
  position :: "real Vec3"
  predicted :: "real Vec3"
  velocity :: "real Vec3"
  density :: real
  nearDensity :: real

record SPHConfig =
  gravity :: real
  smoothingRadius :: real
  targetDensity :: real
  pressureMultiplier :: real
  nearPressureMultiplier :: real
  viscosityStrength :: real
  collisionDamping :: real
  bounds :: "real Vec3"

text \<open>
  The private members of \<^verbatim>\<open>class SPH\<close>. Of \<^verbatim>\<open>_threads\<close> only the size matters to the
  computation, so the field \<open>threads\<close> is that size.
\<close>

record SPH =
  config :: SPHConfig
  particles :: "Particle list"
  threads :: nat
  K_SpikyPow2 :: real
  K_SpikyPow3 :: real
  K_SpikyPow2Grad :: real
  K_SpikyPow3Grad :: real
  keys :: "nat list"
  sortedIndices :: "nat list"
  offsets :: "nat list"
  reorderBuffer :: "Particle list"
  velocitySnapshot :: "real Vec3 list"
  useViscosity :: bool

datatype error = DivisionByZero | OutOfBounds

subsection \<open>Vec3 operations\<close>

definition vzero :: "real Vec3" where
  "vzero = (0, 0, 0)"

fun vadd :: "'a::plus Vec3 \<Rightarrow> 'a Vec3 \<Rightarrow> 'a Vec3" where
  "vadd (a0, a1, a2) (b0, b1, b2) = (a0 + b0, a1 + b1, a2 + b2)"

fun vsub :: "real Vec3 \<Rightarrow> real Vec3 \<Rightarrow> real Vec3" where
  "vsub (a0, a1, a2) (b0, b1, b2) = (a0 - b0, a1 - b1, a2 - b2)"

fun vscale :: "real Vec3 \<Rightarrow> real \<Rightarrow> real Vec3" where
  "vscale (a0, a1, a2) k = (a0 * k, a1 * k, a2 * k)"

fun vdiv :: "real Vec3 \<Rightarrow> real \<Rightarrow> real Vec3" where
  "vdiv (a0, a1, a2) k = (a0 / k, a1 / k, a2 / k)"

fun vdot :: "real Vec3 \<Rightarrow> real Vec3 \<Rightarrow> real" where
  "vdot (a0, a1, a2) (b0, b1, b2) = a0 * b0 + a1 * b1 + a2 * b2"

fun norm3 :: "real Vec3 \<Rightarrow> real" where
  "norm3 (a0, a1, a2) = sqrt (a0 * a0 + a1 * a1 + a2 * a2)"

fun vx :: "'a Vec3 \<Rightarrow> 'a" where
  "vx (a0, a1, a2) = a0"

fun vy :: "'a Vec3 \<Rightarrow> 'a" where
  "vy (a0, a1, a2) = a1"

fun vz :: "'a Vec3 \<Rightarrow> 'a" where
  "vz (a0, a1, a2) = a2"

section \<open>Configuration and lifecycle\<close>

text \<open>\<^verbatim>\<open>constexpr float PI = 3.1415926f\<close> of \<^verbatim>\<open>Rules.h\<close>.\<close>

definition PI :: real where
  "PI = 3.1415926"

text \<open>The member initialisers of \<^verbatim>\<open>struct SPHConfig\<close> and of \<^verbatim>\<open>class Particle\<close>.\<close>

definition defaultConfig :: SPHConfig where
  "defaultConfig =
     \<lparr>gravity = -9.81, smoothingRadius = 0.2, targetDensity = 1000,
      pressureMultiplier = 30, nearPressureMultiplier = 25, viscosityStrength = 0.035,
      collisionDamping = 0.85, bounds = (1, 1, 1)\<rparr>"

definition defaultParticle :: Particle where
  "defaultParticle =
     \<lparr>position = vzero, predicted = vzero, velocity = vzero, density = 0, nearDensity = 0\<rparr>"

text \<open>\<^verbatim>\<open>Particle::Particle(position, velocity)\<close>: the predicted position starts at the position.\<close>

definition mkParticle :: "real Vec3 \<Rightarrow> real Vec3 \<Rightarrow> Particle" where
  "mkParticle pos vel =
     \<lparr>position = pos, predicted = pos, velocity = vel, density = 0, nearDensity = 0\<rparr>"

text \<open>The engine as \<^verbatim>\<open>static SPH instance {}\<close> constructs it.\<close>

definition initialSPH :: SPH where
  "initialSPH =
     \<lparr>config = defaultConfig, particles = [], threads = 0,
      K_SpikyPow2 = 0, K_SpikyPow3 = 0, K_SpikyPow2Grad = 0, K_SpikyPow3Grad = 0,
      keys = [], sortedIndices = [], offsets = [], reorderBuffer = [],
      velocitySnapshot = [], useViscosity = True\<rparr>"

text \<open>\<^verbatim>\<open>std::vector::resize(n)\<close>: keep the first \<open>n\<close> entries, fill up with the default value.\<close>

definition resize :: "nat \<Rightarrow> 'a \<Rightarrow> 'a list \<Rightarrow> 'a list" where
  "resize n d xs = take n xs @ replicate (n - length xs) d"

text \<open>
  \<^verbatim>\<open>SPH::init\<close>. The argument \<open>hw\<close> is what \<^verbatim>\<open>std::thread::hardware_concurrency()\<close>
  returns; \<^verbatim>\<open>std::pow(h, k)\<close> is the power \<open>h ^ k\<close>.
\<close>

definition init :: "nat \<Rightarrow> SPH \<Rightarrow> SPHConfig \<Rightarrow> Particle list \<Rightarrow> SPH" where
  "init hw s cfg ps =
     (let n = length ps;
          threadCount = min (max 1 hw) n;
          h = smoothingRadius cfg
      in s\<lparr>config := cfg,
           particles := ps,
           keys := resize n 0 (keys s),
           sortedIndices := resize n 0 (sortedIndices s),
           offsets := resize n 0 (offsets s),
           reorderBuffer := resize n defaultParticle (reorderBuffer s),
           velocitySnapshot := resize n vzero (velocitySnapshot s),
           threads := threadCount,
           K_SpikyPow2 := 15 / (2 * PI * h ^ 5),
           K_SpikyPow3 := 15 / (PI * h ^ 6),
           K_SpikyPow2Grad := 15 / (PI * h ^ 5),
           K_SpikyPow3Grad := 45 / (PI * h ^ 6)\<rparr>)"

text \<open>\<^verbatim>\<open>SPH::setConfig\<close>: the one assignment \<^verbatim>\<open>_config = config\<close>.\<close>

definition setConfig :: "SPH \<Rightarrow> SPHConfig \<Rightarrow> SPH" where
  "setConfig s cfg = s\<lparr>config := cfg\<rparr>"

section \<open>Kernels\<close>

definition densityKernel :: "SPH \<Rightarrow> real \<Rightarrow> real" where
  "densityKernel s distance =
     (let h = smoothingRadius (config s)
      in if distance < h then (let v = h - distance in v * v * K_SpikyPow2 s) else 0)"

definition nearDensityKernel :: "SPH \<Rightarrow> real \<Rightarrow> real" where
  "nearDensityKernel s distance =
     (let h = smoothingRadius (config s)
      in if distance < h then (let v = h - distance in v * v * v * K_SpikyPow3 s) else 0)"

definition densityDerivative :: "SPH \<Rightarrow> real \<Rightarrow> real" where
  "densityDerivative s distance =
     (let h = smoothingRadius (config s)
      in if distance \<le> h then (let v = h - distance in - v * K_SpikyPow2Grad s) else 0)"

definition nearDensityDerivative :: "SPH \<Rightarrow> real \<Rightarrow> real" where
  "nearDensityDerivative s distance =
     (let h = smoothingRadius (config s)
      in if distance \<le> h then (let v = h - distance in - v * v * K_SpikyPow3Grad s) else 0)"

definition poly6Kernel :: "SPH \<Rightarrow> real \<Rightarrow> real" where
  "poly6Kernel s distance =
     (let h = smoothingRadius (config s)
      in if distance < h
         then (let scale = 315 / (64 * PI * h ^ 9);
                   v = h * h - distance * distance
               in v * v * v * scale)
         else 0)"

definition pressureFromDensity :: "SPH \<Rightarrow> real \<Rightarrow> real" where
  "pressureFromDensity s d = (d - targetDensity (config s)) * pressureMultiplier (config s)"

definition nearPressureFromDensity :: "SPH \<Rightarrow> real \<Rightarrow> real" where
  "nearPressureFromDensity s nd = nd * nearPressureMultiplier (config s)"

section \<open>Spatial index\<close>

text \<open>
  \<^verbatim>\<open>static_cast<int>\<close> of a \<^verbatim>\<open>float\<close> drops the fractional part (rounds towards zero).
  C++ defines the conversion only for values in the range of \<^verbatim>\<open>int\<close>; the model wraps the
  others around, as it does the products of the hash (the specification's reading of the
  32-bit arithmetic).
\<close>

definition truncInt :: "real \<Rightarrow> 32 word" where
  "truncInt r = word_of_int (if 0 \<le> r then \<lfloor>r\<rfloor> else \<lceil>r\<rceil>)"

definition getCell :: "SPH \<Rightarrow> Particle \<Rightarrow> (32 word) Vec3" where
  "getCell s particle =
     (case vdiv (predicted particle) (smoothingRadius (config s)) of
        (a0, a1, a2) \<Rightarrow> (truncInt a0, truncInt a1, truncInt a2))"

definition HASH_X :: "32 word" where
  "HASH_X = 73856093"

definition HASH_Y :: "32 word" where
  "HASH_Y = 19349663"

definition HASH_Z :: "32 word" where
  "HASH_Z = 83492791"

definition hash :: "(32 word) Vec3 \<Rightarrow> 32 word" where
  "hash cell = ((vx cell * HASH_X) XOR (vy cell * HASH_Y)) XOR (vz cell * HASH_Z)"

text \<open>
  \<^verbatim>\<open>keyFromHash\<close> reduces the hash, read as unsigned, modulo the particle count. Every
  call is made from inside a loop over the particle array, where the count is at least 1.
\<close>

definition keyFromHash :: "SPH \<Rightarrow> 32 word \<Rightarrow> nat" where
  "keyFromHash s hsh = unat hsh mod length (particles s)"

definition OFFSETS_3D :: "(32 word) Vec3 list" where
  "OFFSETS_3D =
     [(-1, -1, -1), (0, -1, -1), (1, -1, -1), (-1, 0, -1), (0, 0, -1), (1, 0, -1),
      (-1, 1, -1), (0, 1, -1), (1, 1, -1), (-1, -1, 0), (0, -1, 0), (1, -1, 0),
      (-1, 0, 0), (0, 0, 0), (1, 0, 0), (-1, 1, 0), (0, 1, 0), (1, 1, 0),
      (-1, -1, 1), (0, -1, 1), (1, -1, 1), (-1, 0, 1), (0, 0, 1), (1, 0, 1),
      (-1, 1, 1), (0, 1, 1), (1, 1, 1)]"

text \<open>
  A range-for over \<^verbatim>\<open>std::views::zip\<close> stops with the shortest of its vectors: the first
  \<open>m\<close> entries of the target are overwritten, the others stay.
\<close>

definition zipAssign :: "nat \<Rightarrow> 'a list \<Rightarrow> 'a list \<Rightarrow> 'a list" where
  "zipAssign m new old = take m new @ drop m old"

text \<open>The first loop of \<^verbatim>\<open>buildSpatialHash\<close>: one key for each particle.\<close>

definition computeKeys :: "SPH \<Rightarrow> SPH" where
  "computeKeys s =
     (let m = min (length (particles s)) (length (keys s))
      in s\<lparr>keys := zipAssign m
             (map (\<lambda>particle. keyFromHash s (hash (getCell s particle))) (particles s))
             (keys s)\<rparr>)"

text \<open>
  \<^verbatim>\<open>std::ranges::sort\<close> leaves some permutation of the index vector in which no entry has a
  smaller key than an entry before it; which one, among entries of equal key, is not
  fixed. \<open>sortedByKey\<close> is that postcondition for an index vector filled by
  \<^verbatim>\<open>std::iota\<close>. The model's \<open>sortIndices\<close> is the stable sort, one of the admissible
  results.
\<close>

definition sortedByKey :: "nat list \<Rightarrow> nat list \<Rightarrow> bool" where
  "sortedByKey ks si \<longleftrightarrow>
     distinct si \<and> set si = {0..<length si} \<and> sorted (map (\<lambda>a. ks ! a) si)"

definition sortIndices :: "nat list \<Rightarrow> nat \<Rightarrow> nat list" where
  "sortIndices ks n = sort_key (\<lambda>a. ks ! a) [0..<n]"

definition buildSpatialHash :: "SPH \<Rightarrow> SPH" where
  "buildSpatialHash s =
     (let s1 = computeKeys s
      in s1\<lparr>sortedIndices := sortIndices (keys s1) (length (sortedIndices s1))\<rparr>)"

definition reorderParticles :: "SPH \<Rightarrow> SPH" where
  "reorderParticles s =
     (let keysCopy = keys s;
          m = min (length (sortedIndices s)) (min (length (keys s)) (length (reorderBuffer s)));
          buffer = zipAssign m (map (\<lambda>sortedIndex. particles s ! sortedIndex) (sortedIndices s))
                     (reorderBuffer s);
          ks = zipAssign m (map (\<lambda>sortedIndex. keysCopy ! sortedIndex) (sortedIndices s))
                     (keys s)
      in s\<lparr>reorderBuffer := buffer, keys := ks, particles := buffer\<rparr>)"

text \<open>Step 3 of \<^verbatim>\<open>SPH::step\<close>: fill the offsets with N, then lower each to the first index.\<close>

definition offsetStep :: "nat list \<Rightarrow> nat \<Rightarrow> nat list \<Rightarrow> nat list" where
  "offsetStep ks i off = (let k = ks ! i in if off ! k > i then off[k := i] else off)"

definition fillOffsets :: "SPH \<Rightarrow> SPH" where
  "fillOffsets s =
     s\<lparr>offsets := fold (offsetStep (keys s)) [0..<length (offsets s)]
                    (replicate (length (offsets s)) (length (particles s)))\<rparr>"

text \<open>
  The single-threaded index build of a step, with the result \<open>si\<close> of the sort given:
  key computation, sort, reorder, offset fill.
\<close>

definition indexBuildWith :: "nat list \<Rightarrow> SPH \<Rightarrow> SPH" where
  "indexBuildWith si s = fillOffsets (reorderParticles ((computeKeys s)\<lparr>sortedIndices := si\<rparr>))"

definition indexBuild :: "SPH \<Rightarrow> SPH" where
  "indexBuild s = fillOffsets (reorderParticles (buildSpatialHash s))"

text \<open>Every scratch buffer has the size of the particle array, as \<^verbatim>\<open>init\<close> leaves them.\<close>

definition sized :: "SPH \<Rightarrow> bool" where
  "sized s \<longleftrightarrow>
     length (keys s) = length (particles s) \<and>
     length (sortedIndices s) = length (particles s) \<and>
     length (offsets s) = length (particles s) \<and>
     length (reorderBuffer s) = length (particles s) \<and>
     length (velocitySnapshot s) = length (particles s)"

section \<open>Physics passes\<close>

text \<open>Errors are passed on: the first one ends the computation.\<close>

fun foldE :: "('a \<Rightarrow> 's \<Rightarrow> error + 's) \<Rightarrow> 'a list \<Rightarrow> 's \<Rightarrow> error + 's" where
  "foldE f [] s = Inr s"
| "foldE f (x # xs) s = (case f x s of Inl e \<Rightarrow> Inl e | Inr s' \<Rightarrow> foldE f xs s')"

definition thenE :: "error + 'a \<Rightarrow> ('a \<Rightarrow> error + 'b) \<Rightarrow> error + 'b" where
  "thenE r f = (case r of Inl e \<Rightarrow> Inl e | Inr a \<Rightarrow> f a)"

text \<open>
  A pass runs \<^verbatim>\<open>for (it = start; it != end; ++it)\<close> over its range. When \<open>start\<close> lies
  behind \<open>end\<close> the iterator leaves the array without meeting \<open>end\<close>. The functions
  named after the passes below are the loop body of the pass for the particle at index
  \<open>i\<close>; \<open>rangePass\<close> runs a body over a range.
\<close>

definition rangePass :: "(nat \<Rightarrow> SPH \<Rightarrow> error + SPH) \<Rightarrow> nat \<Rightarrow> nat \<Rightarrow> SPH \<Rightarrow> error + SPH" where
  "rangePass f start finish s =
     (if start \<le> finish then foldE f [start..<finish] s else Inl OutOfBounds)"

text \<open>
  The workers of a pass own disjoint ranges, write only fields of their own particles and
  read of the others only fields the pass does not write; a barrier or a join separates
  the passes. The model therefore runs the workers of a pass one after the other:
  worker \<open>t\<close> has the range from \<open>t * chunk\<close> to \<open>min (t * chunk + chunk) N\<close>.
\<close>

definition workers :: "nat \<Rightarrow> nat \<Rightarrow> (nat \<Rightarrow> SPH \<Rightarrow> error + SPH) \<Rightarrow> SPH \<Rightarrow> error + SPH" where
  "workers threadCount chunk f s =
     foldE (\<lambda>t s'. rangePass f (t * chunk) (min (t * chunk + chunk) (length (particles s'))) s')
       [0..<threadCount] s"

definition setParticle :: "nat \<Rightarrow> Particle \<Rightarrow> SPH \<Rightarrow> SPH" where
  "setParticle i p s = s\<lparr>particles := (particles s)[i := p]\<rparr>"

subsection \<open>External forces\<close>

definition applyExternalForces :: "real \<Rightarrow> nat \<Rightarrow> SPH \<Rightarrow> error + SPH" where
  "applyExternalForces dt i s =
     (let particle = particles s ! i;
          v = velocity particle;
          v' = (vx v, vy v + gravity (config s) * dt, vz v)
      in Inr (setParticle i
               (particle\<lparr>velocity := v',
                         predicted := vadd (position particle) (vscale v' dt)\<rparr>) s))"

subsection \<open>Densities\<close>

text \<open>
  The bucket walk of \<^verbatim>\<open>calculateDensities\<close> reads the entry at \<open>neighborIndex\<close> and
  increments afterwards; the loop condition has checked the index.
\<close>

function densityWalk :: "SPH \<Rightarrow> Particle \<Rightarrow> real \<Rightarrow> nat \<Rightarrow> nat \<Rightarrow> real \<times> real \<Rightarrow> real \<times> real" where
  "densityWalk s particle squareRadius key neighborIndex acc =
     (if neighborIndex < length (particles s) \<and> keys s ! neighborIndex = key
      then (let distanceToNeighbor = vsub (predicted (particles s ! neighborIndex))
                                          (predicted particle);
                squareDistance = vdot distanceToNeighbor distanceToNeighbor;
                acc' = (if squareDistance \<le> squareRadius
                        then (let distance = norm3 distanceToNeighbor
                              in (fst acc + densityKernel s distance,
                                  snd acc + nearDensityKernel s distance))
                        else acc)
            in densityWalk s particle squareRadius key (Suc neighborIndex) acc')
      else acc)"
  by pat_completeness auto
termination
  by (relation "measure (\<lambda>(s, particle, squareRadius, key, neighborIndex, acc).
                  length (particles s) - neighborIndex)") auto

declare densityWalk.simps [simp del]

definition calculateDensities :: "nat \<Rightarrow> SPH \<Rightarrow> error + SPH" where
  "calculateDensities i s =
     (let squareRadius = (smoothingRadius (config s))\<^sup>2;
          particle = particles s ! i;
          originCell = getCell s particle;
          (dens, nearDens) =
             fold (\<lambda>offset acc.
                     (let cell = vadd originCell offset;
                          key = keyFromHash s (hash cell)
                      in densityWalk s particle squareRadius key (offsets s ! key) acc))
                  OFFSETS_3D (0, 0)
      in Inr (setParticle i (particle\<lparr>density := dens, nearDensity := nearDens\<rparr>) s))"

subsection \<open>Pressure and viscosity\<close>

text \<open>
  The bucket walk of \<^verbatim>\<open>calculatePressureForce\<close> and of \<^verbatim>\<open>calculateViscosity\<close>: the loop
  condition checks \<open>neighborIndex\<close>, the body increments it first and then reads
  \<^verbatim>\<open>_particles[neighborIndex]\<close> (and \<^verbatim>\<open>velocitySnapshot[neighborIndex]\<close>). \<open>body j acc\<close> is
  the rest of the loop body for the entry at \<open>j\<close>; it does not touch the index or the keys.
\<close>

function neighborWalk :: "SPH \<Rightarrow> (nat \<Rightarrow> 'a \<Rightarrow> 'a) \<Rightarrow> nat \<Rightarrow> nat \<Rightarrow> 'a \<Rightarrow> error + 'a" where
  "neighborWalk s body key neighborIndex acc =
     (if neighborIndex < length (particles s) \<and> keys s ! neighborIndex = key
      then (let j = Suc neighborIndex
            in if length (particles s) \<le> j then Inl OutOfBounds
               else neighborWalk s body key j (body j acc))
      else Inr acc)"
  by pat_completeness auto
termination
  by (relation "measure (\<lambda>(s, body, key, neighborIndex, acc).
                  length (particles s) - neighborIndex)") auto

declare neighborWalk.simps [simp del]

text \<open>The 27 walks of one particle, in the order of \<^verbatim>\<open>OFFSETS_3D\<close>.\<close>

definition neighborhoodWalk :: "SPH \<Rightarrow> (nat \<Rightarrow> 'a \<Rightarrow> 'a) \<Rightarrow> Particle \<Rightarrow> 'a \<Rightarrow> error + 'a" where
  "neighborhoodWalk s body particle acc0 =
     (let originCell = getCell s particle
      in foldE (\<lambda>offset acc.
                  (let cell = vadd originCell offset;
                       key = keyFromHash s (hash cell)
                   in neighborWalk s body key (offsets s ! key) acc))
               OFFSETS_3D acc0)"

text \<open>
  The body of the pressure walk for the entry at \<open>j\<close>. \<^verbatim>\<open>neighbor != particle\<close> compares
  addresses: the entry is the particle itself exactly when \<open>j = i\<close>.
\<close>

definition pressureNeighbor :: "SPH \<Rightarrow> nat \<Rightarrow> nat \<Rightarrow> real Vec3 \<times> int \<Rightarrow> real Vec3 \<times> int" where
  "pressureNeighbor s i j acc =
     (let particle = particles s ! i;
          neighbor = particles s ! j;
          squareRadius = (smoothingRadius (config s))\<^sup>2;
          pressure = pressureFromDensity s (density particle);
          nearPressure = nearPressureFromDensity s (nearDensity particle)
      in if j \<noteq> i
         then (let distanceToNeighbor = vsub (predicted neighbor) (predicted particle);
                   squareDistance = vdot distanceToNeighbor distanceToNeighbor
               in if squareDistance \<le> squareRadius
                  then (let sharedPressure =
                              (pressure + pressureFromDensity s (density neighbor)) * 0.5;
                            sharedNearPressure =
                              (nearPressure + nearPressureFromDensity s (density neighbor)) * 0.5;
                            dstToNeighbor = sqrt squareDistance;
                            dirToNeighbor = (if dstToNeighbor > 0.000001
                                             then vdiv distanceToNeighbor dstToNeighbor
                                             else vzero);
                            f1 = vadd (fst acc)
                                   (vdiv (vscale (vscale dirToNeighbor
                                                    (densityDerivative s dstToNeighbor))
                                            sharedPressure)
                                      (density neighbor));
                            f2 = vadd f1
                                   (vdiv (vscale (vscale dirToNeighbor
                                                    (nearDensityDerivative s dstToNeighbor))
                                            sharedNearPressure)
                                      (max 0.000001 (nearDensity neighbor)))
                        in (f2, snd acc + 1))
                  else acc)
         else acc)"

text \<open>Lines 326 to 332: acceleration, velocity update and airborne drag.\<close>

definition pressureFinish :: "real \<Rightarrow> Particle \<Rightarrow> real Vec3 \<times> int \<Rightarrow> Particle" where
  "pressureFinish dt particle acc =
     (let pressureForce = fst acc;
          neighborCount = snd acc;
          acceleration = vscale pressureForce (1 / max 0.000001 (density particle));
          v1 = vadd (velocity particle) (vscale acceleration dt);
          v2 = (if neighborCount < 8 then vsub v1 (vscale (vscale v1 dt) 0.75) else v1)
      in particle\<lparr>velocity := v2\<rparr>)"

definition calculatePressureForce :: "real \<Rightarrow> nat \<Rightarrow> SPH \<Rightarrow> error + SPH" where
  "calculatePressureForce dt i s =
     thenE (neighborhoodWalk s (pressureNeighbor s i) (particles s ! i) (vzero, 0))
       (\<lambda>acc. Inr (setParticle i (pressureFinish dt (particles s ! i) acc) s))"

definition writeSnapshot :: "nat \<Rightarrow> SPH \<Rightarrow> error + SPH" where
  "writeSnapshot i s =
     Inr (s\<lparr>velocitySnapshot := (velocitySnapshot s)[i := velocity (particles s ! i)]\<rparr>)"

definition viscosityNeighbor :: "SPH \<Rightarrow> nat \<Rightarrow> nat \<Rightarrow> real Vec3 \<Rightarrow> real Vec3" where
  "viscosityNeighbor s i j viscosityForce =
     (let particle = particles s ! i;
          neighbor = particles s ! j;
          squareRadius = (smoothingRadius (config s))\<^sup>2;
          vel = velocitySnapshot s ! i
      in if j \<noteq> i
         then (let distanceToNeighbor = vsub (predicted neighbor) (predicted particle);
                   squareDistance = vdot distanceToNeighbor distanceToNeighbor
               in if squareDistance \<le> squareRadius
                  then (let distance = sqrt squareDistance
                        in vadd viscosityForce
                             (vscale (vsub (velocitySnapshot s ! j) vel) (poly6Kernel s distance)))
                  else viscosityForce)
         else viscosityForce)"

definition calculateViscosity :: "real \<Rightarrow> nat \<Rightarrow> SPH \<Rightarrow> error + SPH" where
  "calculateViscosity dt i s =
     thenE (neighborhoodWalk s (viscosityNeighbor s i) (particles s ! i) vzero)
       (\<lambda>viscosityForce.
          (let particle = particles s ! i
           in Inr (setParticle i
                    (particle\<lparr>velocity := vadd (velocity particle)
                        (vscale (vscale viscosityForce (viscosityStrength (config s))) dt)\<rparr>) s)))"

subsection \<open>Position update\<close>

definition sign :: "real \<Rightarrow> real" where
  "sign v = (if v \<ge> 0 then 1 else -1)"

text \<open>One axis of \<^verbatim>\<open>resolveCollisions\<close>: the new position and velocity components.\<close>

definition resolveAxis :: "SPHConfig \<Rightarrow> real \<Rightarrow> real \<Rightarrow> real \<Rightarrow> real \<times> real" where
  "resolveAxis cfg pos vel halfBound =
     (if halfBound - \<bar>pos\<bar> \<le> 0
      then (halfBound * sign pos, vel * (- collisionDamping cfg))
      else (pos, vel))"

definition resolveCollisions :: "SPHConfig \<Rightarrow> Particle \<Rightarrow> Particle" where
  "resolveCollisions cfg particle =
     (let r0 = resolveAxis cfg (vx (position particle)) (vx (velocity particle)) (vx (bounds cfg));
          r1 = resolveAxis cfg (vy (position particle)) (vy (velocity particle)) (vy (bounds cfg));
          r2 = resolveAxis cfg (vz (position particle)) (vz (velocity particle)) (vz (bounds cfg))
      in particle\<lparr>position := (fst r0, fst r1, fst r2), velocity := (snd r0, snd r1, snd r2)\<rparr>)"

definition updatePosition :: "SPHConfig \<Rightarrow> real \<Rightarrow> Particle \<Rightarrow> Particle" where
  "updatePosition cfg dt particle =
     resolveCollisions cfg
       (particle\<lparr>position := vadd (position particle) (vscale (velocity particle) dt)\<rparr>)"

definition updatePositions :: "real \<Rightarrow> nat \<Rightarrow> SPH \<Rightarrow> error + SPH" where
  "updatePositions dt i s = Inr (setParticle i (updatePosition (config s) dt (particles s ! i)) s)"

section \<open>Step orchestrator\<close>

text \<open>
  \<^verbatim>\<open>SPH::step\<close>. The chunk size is \<^verbatim>\<open>(N + threadCount - 1) / threadCount\<close> in unsigned
  arithmetic, a division by zero when there is no thread. After the step \<^verbatim>\<open>_threads\<close> holds
  \<open>threadCount\<close> joined threads again.
\<close>

definition step :: "SPH \<Rightarrow> real \<Rightarrow> error + SPH" where
  "step s dt =
     (let threadCount = threads s
      in if threadCount = 0 then Inl DivisionByZero
         else (let chunk = (length (particles s) + threadCount - 1) div threadCount
               in thenE (workers threadCount chunk (applyExternalForces dt) s) (\<lambda>s1.
                  let s2 = indexBuild s1;
                      s3 = s2\<lparr>useViscosity := (viscosityStrength (config s2) \<noteq> 0)\<rparr>
                  in thenE (workers threadCount chunk calculateDensities s3) (\<lambda>s4.
                     thenE (workers threadCount chunk (calculatePressureForce dt) s4) (\<lambda>s5.
                     thenE (if useViscosity s5
                            then thenE (workers threadCount chunk writeSnapshot s5)
                                   (workers threadCount chunk (calculateViscosity dt))
                            else Inr s5) (\<lambda>s6.
                     workers threadCount chunk (updatePositions dt) s6))))))"

section \<open>Seeder\<close>

text \<open>\<^verbatim>\<open>std::clamp(v, lo, hi)\<close>.\<close>

definition clamp :: "real \<Rightarrow> real \<Rightarrow> real \<Rightarrow> real" where
  "clamp v lo hi = (if v < lo then lo else if hi < v then hi else v)"

text \<open>
  \<^verbatim>\<open>spawnParticlesInBox\<close> of \<^verbatim>\<open>Rules.h\<close>. The random engine and the three
  \<^verbatim>\<open>std::uniform_real_distribution\<close> objects belong to the standard library; \<open>draw k a b\<close>
  stands for the value the \<open>k\<close>-th call returns for the distribution over \<open>a\<close> to \<open>b\<close>. The
  braced initialiser evaluates the three calls from left to right.
\<close>

definition spawnParticlesInBox ::
  "(nat \<Rightarrow> real \<Rightarrow> real \<Rightarrow> real) \<Rightarrow> nat \<Rightarrow> real \<Rightarrow> real \<Rightarrow> real \<Rightarrow> Particle list" where
  "spawnParticlesInBox draw count boxSize margin minHeightRatio =
     (let halfBox = boxSize * 0.5;
          clampedMargin = clamp margin 0 halfBox;
          maxY = halfBox - clampedMargin;
          minY0 = max (- halfBox + clampedMargin) (minHeightRatio * halfBox);
          minY = (if minY0 > maxY then maxY else minY0)
      in map (\<lambda>i. mkParticle
                     (draw (3 * i) (- halfBox + clampedMargin) (halfBox - clampedMargin),
                      draw (3 * i + 1) minY maxY,
                      draw (3 * i + 2) (- halfBox + clampedMargin) (halfBox - clampedMargin))
                     (0, 0, 0))
             [0..<count])"

text \<open>What the standard guarantees of a draw: it lies between the two bounds.\<close>

definition uniformDraws :: "(nat \<Rightarrow> real \<Rightarrow> real \<Rightarrow> real) \<Rightarrow> bool" where
  "uniformDraws draw \<longleftrightarrow> (\<forall>k a b. a \<le> b \<longrightarrow> a \<le> draw k a b \<and> draw k a b \<le> b)"

section \<open>Vocabulary of the statements\<close>

text \<open>
  What the index build of a step establishes and every later pass of the step relies on:
  keys and offsets have the size of the particle array, the keys are in order, the key at
  \<open>i\<close> is the key of the particle at \<open>i\<close> and lies below N, and the offset of a key is the
  first index that holds it, or N when none does.
\<close>

definition indexed :: "SPH \<Rightarrow> bool" where
  "indexed s \<longleftrightarrow>
     length (keys s) = length (particles s) \<and>
     length (offsets s) = length (particles s) \<and>
     sorted (keys s) \<and>
     (\<forall>i<length (particles s).
        keys s ! i = keyFromHash s (hash (getCell s (particles s ! i))) \<and>
        keys s ! i < length (particles s)) \<and>
     (\<forall>k<length (particles s).
        (\<forall>i<length (particles s). keys s ! i = k \<longrightarrow> offsets s ! k \<le> i) \<and>
        (offsets s ! k = length (particles s) \<or>
         (offsets s ! k < length (particles s) \<and> keys s ! (offsets s ! k) = k)))"

text \<open>
  The distance test of the passes, \<^verbatim>\<open>squareDistance <= squareRadius\<close>, for the particles at
  \<open>i\<close> and \<open>j\<close>, and the two terms the pressure pass adds to \<^verbatim>\<open>pressureForce\<close> for the
  neighbor at \<open>j\<close>.
\<close>

definition inRange :: "SPH \<Rightarrow> nat \<Rightarrow> nat \<Rightarrow> bool" where
  "inRange s i j \<longleftrightarrow>
     (let distanceToNeighbor = vsub (predicted (particles s ! j)) (predicted (particles s ! i))
      in vdot distanceToNeighbor distanceToNeighbor \<le> (smoothingRadius (config s))\<^sup>2)"

definition pressureTerm :: "SPH \<Rightarrow> nat \<Rightarrow> nat \<Rightarrow> real Vec3" where
  "pressureTerm s i j =
     (let particle = particles s ! i;
          neighbor = particles s ! j;
          distanceToNeighbor = vsub (predicted neighbor) (predicted particle);
          dstToNeighbor = sqrt (vdot distanceToNeighbor distanceToNeighbor);
          dirToNeighbor = (if dstToNeighbor > 0.000001
                           then vdiv distanceToNeighbor dstToNeighbor else vzero);
          sharedPressure = (pressureFromDensity s (density particle)
                            + pressureFromDensity s (density neighbor)) * 0.5
      in vdiv (vscale (vscale dirToNeighbor (densityDerivative s dstToNeighbor)) sharedPressure)
           (density neighbor))"

definition nearPressureTerm :: "SPH \<Rightarrow> nat \<Rightarrow> nat \<Rightarrow> real Vec3" where
  "nearPressureTerm s i j =
     (let particle = particles s ! i;
          neighbor = particles s ! j;
          distanceToNeighbor = vsub (predicted neighbor) (predicted particle);
          dstToNeighbor = sqrt (vdot distanceToNeighbor distanceToNeighbor);
          dirToNeighbor = (if dstToNeighbor > 0.000001
                           then vdiv distanceToNeighbor dstToNeighbor else vzero);
          sharedNearPressure = (nearPressureFromDensity s (nearDensity particle)
                                + nearPressureFromDensity s (density neighbor)) * 0.5
      in vdiv (vscale (vscale dirToNeighbor (nearDensityDerivative s dstToNeighbor))
                 sharedNearPressure)
           (max 0.000001 (nearDensity neighbor)))"

text \<open>
  The indices at which the pressure walk of the particle at \<open>i\<close> reads \<^verbatim>\<open>_particles\<close>, in order:
  the walk itself, run with a body that records the index. \<open>neighborCount\<close> is the value of
  \<^verbatim>\<open>neighborCount\<close> when the 27 walks of the particle at \<open>i\<close> are done.
\<close>

definition visits :: "SPH \<Rightarrow> nat \<Rightarrow> error + nat list" where
  "visits s i = neighborhoodWalk s (\<lambda>j js. js @ [j]) (particles s ! i) []"

definition neighborCount :: "SPH \<Rightarrow> nat \<Rightarrow> error + int" where
  "neighborCount s i =
     (case neighborhoodWalk s (pressureNeighbor s i) (particles s ! i) (vzero, 0) of
        Inl e \<Rightarrow> Inl e
      | Inr acc \<Rightarrow> Inr (snd acc))"

section \<open>Scenarios\<close>

text \<open>
  Six particles at rest under the default configuration without gravity (radius 0.2): two
  in the cell at the origin, 0.1 apart, and four in the cell \<open>(0, 0, 4)\<close>. With six particles
  the origin cell has key 0, the far cell key 4, and seven of the 27 cells around the origin
  have key 0. The external-forces pass of a step changes nothing here, so \<open>demoState\<close> is
  the state the passes of the first step find after the index build.
\<close>

definition demoConfig :: SPHConfig where
  "demoConfig = defaultConfig\<lparr>gravity := 0\<rparr>"

definition demoParticles :: "Particle list" where
  "demoParticles =
     [mkParticle (0, 0, 0) (0, 0, 0), mkParticle (0.1, 0, 0) (0, 0, 0),
      mkParticle (0, 0, 0.8) (0, 0, 0), mkParticle (0.05, 0, 0.8) (0, 0, 0),
      mkParticle (0.1, 0, 0.8) (0, 0, 0), mkParticle (0.15, 0, 0.8) (0, 0, 0)]"

definition demoInit :: SPH where
  "demoInit = init 1 initialSPH demoConfig demoParticles"

definition demoState :: SPH where
  "demoState = indexBuild demoInit"

text \<open>
  The same six particles handed to \<^verbatim>\<open>init\<close> in another order, so that their keys,
  4, 0, 4, 0, 4, 4, are not in order before the sort.
\<close>

definition shuffledParticles :: "Particle list" where
  "shuffledParticles =
     [mkParticle (0, 0, 0.8) (0, 0, 0), mkParticle (0, 0, 0) (0, 0, 0),
      mkParticle (0.05, 0, 0.8) (0, 0, 0), mkParticle (0.1, 0, 0) (0, 0, 0),
      mkParticle (0.1, 0, 0.8) (0, 0, 0), mkParticle (0.15, 0, 0.8) (0, 0, 0)]"

definition shuffledInit :: SPH where
  "shuffledInit = init 1 initialSPH demoConfig shuffledParticles"

text \<open>
  One particle, initialised with the default radius 0.2; then the configuration is replaced
  by one with the radius 0.4.
\<close>

definition retunedState :: SPH where
  "retunedState =
     setConfig (init 1 initialSPH defaultConfig [mkParticle (0, 0, 0) (0, 0, 0)])
       (defaultConfig\<lparr>smoothingRadius := 0.4\<rparr>)"

text \<open>
  The floor bounce of the specification: one particle on the floor moving down, no gravity,
  pressure and viscosity switched off, damping one half.
\<close>

definition bounceConfig :: SPHConfig where
  "bounceConfig =
     defaultConfig\<lparr>gravity := 0, pressureMultiplier := 0, nearPressureMultiplier := 0,
                   viscosityStrength := 0, collisionDamping := 0.5\<rparr>"

definition bounceParticle :: Particle where
  "bounceParticle = mkParticle (0, -1, 0) (0, -2, 0)"

section \<open>Properties of the lifecycle operations\<close>

lemma PI_pos: "0 < PI"
  by (simp add: PI_def)

lemma init_fields:
  "config (init hw s cfg ps) = cfg"
  "particles (init hw s cfg ps) = ps"
  "K_SpikyPow2 (init hw s cfg ps) = 15 / (2 * PI * smoothingRadius cfg ^ 5)"
  "K_SpikyPow3 (init hw s cfg ps) = 15 / (PI * smoothingRadius cfg ^ 6)"
  "K_SpikyPow2Grad (init hw s cfg ps) = 15 / (PI * smoothingRadius cfg ^ 5)"
  "K_SpikyPow3Grad (init hw s cfg ps) = 45 / (PI * smoothingRadius cfg ^ 6)"
  "threads (init hw s cfg ps) = min (max 1 hw) (length ps)"
  by (simp_all add: init_def Let_def)

text \<open>
  Claim C9. \<^verbatim>\<open>setConfig\<close> writes the stored configuration and nothing else: the particle
  array, the five scratch buffers and the four kernel coefficients are those of the state
  before the call (and so are the thread count and the viscosity flag).
\<close>

theorem setConfig_frame:
  "setConfig s c = s\<lparr>config := c\<rparr> \<and>
   particles (setConfig s c) = particles s \<and>
   keys (setConfig s c) = keys s \<and>
   sortedIndices (setConfig s c) = sortedIndices s \<and>
   offsets (setConfig s c) = offsets s \<and>
   reorderBuffer (setConfig s c) = reorderBuffer s \<and>
   velocitySnapshot (setConfig s c) = velocitySnapshot s \<and>
   K_SpikyPow2 (setConfig s c) = K_SpikyPow2 s \<and>
   K_SpikyPow3 (setConfig s c) = K_SpikyPow3 s \<and>
   K_SpikyPow2Grad (setConfig s c) = K_SpikyPow2Grad s \<and>
   K_SpikyPow3Grad (setConfig s c) = K_SpikyPow3Grad s \<and>
   threads (setConfig s c) = threads s \<and>
   useViscosity (setConfig s c) = useViscosity s"
  by (simp add: setConfig_def)

text \<open>
  Claim C4, as the code has it. Neither \<^verbatim>\<open>init\<close> nor \<^verbatim>\<open>setConfig\<close> inspects the
  configuration: whatever its smoothing radius, collision damping and bounds are, it becomes
  the stored configuration, and \<^verbatim>\<open>init\<close> installs the given particles with it. There is
  no rejection and no signal.
\<close>

theorem init_setConfig_accept_every_config:
  "setConfig s c = s\<lparr>config := c\<rparr> \<and>
   config (setConfig s c) = c \<and>
   config (init hw s c ps) = c \<and>
   particles (init hw s c ps) = ps"
  by (simp add: setConfig_def init_fields)

text \<open>
  Configurations with a negative smoothing radius, a negative collision damping or zero
  bounds replace the installed configuration, and \<^verbatim>\<open>init\<close> replaces the installed
  particles: the prior state is not kept.
\<close>

theorem invalid_config_installed:
  "smoothingRadius (defaultConfig\<lparr>smoothingRadius := -1\<rparr>) \<le> 0 \<and>
   config (setConfig initialSPH (defaultConfig\<lparr>smoothingRadius := -1\<rparr>)) \<noteq> config initialSPH \<and>
   config (init 1 initialSPH (defaultConfig\<lparr>smoothingRadius := -1\<rparr>) []) \<noteq> config initialSPH \<and>
   collisionDamping (defaultConfig\<lparr>collisionDamping := -1\<rparr>) < 0 \<and>
   config (setConfig initialSPH (defaultConfig\<lparr>collisionDamping := -1\<rparr>)) \<noteq> config initialSPH \<and>
   particles (init 1 (init 1 initialSPH defaultConfig [mkParticle (0, 0, 0) (0, 0, 0)])
                (defaultConfig\<lparr>bounds := (0, 0, 0)\<rparr>) [])
     \<noteq> particles (init 1 initialSPH defaultConfig [mkParticle (0, 0, 0) (0, 0, 0)])"
  by (simp add: setConfig_def init_fields initialSPH_def defaultConfig_def)

text \<open>
  Claim C5 on the code. After \<^verbatim>\<open>init\<close> with one particle and the default radius 0.2,
  \<^verbatim>\<open>setConfig\<close> with the radius 0.4 stores the new radius, and the four coefficients are
  still those of 0.2, none of them the value the new radius calls for; \<^verbatim>\<open>densityKernel\<close>
  then multiplies the square of the new radius with the coefficient of the old one.
\<close>

theorem setConfig_keeps_old_coefficients:
  "smoothingRadius (config retunedState) = 0.4 \<and>
   K_SpikyPow2 retunedState = 15 / (2 * PI * 0.2 ^ 5) \<and>
   K_SpikyPow3 retunedState = 15 / (PI * 0.2 ^ 6) \<and>
   K_SpikyPow2Grad retunedState = 15 / (PI * 0.2 ^ 5) \<and>
   K_SpikyPow3Grad retunedState = 45 / (PI * 0.2 ^ 6) \<and>
   K_SpikyPow2 retunedState \<noteq> 15 / (2 * PI * 0.4 ^ 5) \<and>
   K_SpikyPow3 retunedState \<noteq> 15 / (PI * 0.4 ^ 6) \<and>
   K_SpikyPow2Grad retunedState \<noteq> 15 / (PI * 0.4 ^ 5) \<and>
   K_SpikyPow3Grad retunedState \<noteq> 45 / (PI * 0.4 ^ 6) \<and>
   densityKernel retunedState 0 = 0.4\<^sup>2 * (15 / (2 * PI * 0.2 ^ 5))"
  by (simp add: retunedState_def setConfig_def init_fields defaultConfig_def PI_def
      densityKernel_def power2_eq_square power_divide)

lemma sized_init: "sized (init hw s cfg ps)"
  by (auto simp: sized_def init_def Let_def resize_def)

text \<open>
  Claim C3 on the code. \<^verbatim>\<open>init\<close> with an empty particle list leaves no thread
  (\<open>min (max 1 hw) 0 = 0\<close>), and the first statement of \<^verbatim>\<open>step\<close> that computes the chunk
  size divides by that thread count: the step ends in a division by zero, whatever the
  prior state, the configuration and \<open>dt\<close> are.
\<close>

theorem step_empty_divides_by_zero:
  "threads (init hw s cfg []) = 0 \<and> step (init hw s cfg []) dt = Inl DivisionByZero"
  by (simp add: init_fields step_def)

section \<open>Properties of the kernels\<close>

lemma coeff_pos:
  assumes "0 < smoothingRadius cfg"
  shows "0 < K_SpikyPow2 (init hw s cfg ps)" "0 < K_SpikyPow3 (init hw s cfg ps)"
    "0 < K_SpikyPow2Grad (init hw s cfg ps)" "0 < K_SpikyPow3Grad (init hw s cfg ps)"
  using assms PI_pos by (simp_all add: init_fields)

lemma densityKernel_antimono:
  assumes "0 \<le> K_SpikyPow2 s" "d1 \<le> d2" "d2 \<le> smoothingRadius (config s)"
  shows "densityKernel s d2 \<le> densityKernel s d1"
proof -
  let ?h = "smoothingRadius (config s)"
  have "(?h - d2) * (?h - d2) \<le> (?h - d1) * (?h - d1)"
    using assms by (intro mult_mono) auto
  then have "(?h - d2) * (?h - d2) * K_SpikyPow2 s \<le> (?h - d1) * (?h - d1) * K_SpikyPow2 s"
    using assms(1) by (rule mult_right_mono)
  moreover have "0 \<le> (?h - d1) * (?h - d1) * K_SpikyPow2 s"
    using assms(1) by simp
  ultimately show ?thesis
    using assms by (auto simp: densityKernel_def Let_def)
qed

lemma nearDensityKernel_antimono:
  assumes "0 \<le> K_SpikyPow3 s" "d1 \<le> d2" "d2 \<le> smoothingRadius (config s)"
  shows "nearDensityKernel s d2 \<le> nearDensityKernel s d1"
proof -
  let ?h = "smoothingRadius (config s)"
  have a: "0 \<le> ?h - d2" "?h - d2 \<le> ?h - d1" using assms by auto
  have "(?h - d2) * (?h - d2) * (?h - d2) \<le> (?h - d1) * (?h - d1) * (?h - d1)"
    using a by (intro mult_mono) auto
  then have "(?h - d2) * (?h - d2) * (?h - d2) * K_SpikyPow3 s
               \<le> (?h - d1) * (?h - d1) * (?h - d1) * K_SpikyPow3 s"
    using assms(1) by (rule mult_right_mono)
  moreover have "0 \<le> (?h - d1) * (?h - d1) * (?h - d1) * K_SpikyPow3 s"
    using assms(1) a by simp
  ultimately show ?thesis
    using assms by (auto simp: nearDensityKernel_def Let_def)
qed

lemma poly6Kernel_antimono:
  assumes "0 < smoothingRadius (config s)" "0 \<le> d1" "d1 \<le> d2" "d2 \<le> smoothingRadius (config s)"
  shows "poly6Kernel s d2 \<le> poly6Kernel s d1"
proof -
  let ?h = "smoothingRadius (config s)"
  let ?c = "315 / (64 * PI * ?h ^ 9)"
  have c: "0 \<le> ?c" using assms(1) PI_pos by simp
  have "d1 * d1 \<le> d2 * d2" "d2 * d2 \<le> ?h * ?h"
    using assms by (auto intro!: mult_mono)
  then have a: "0 \<le> ?h * ?h - d2 * d2" "?h * ?h - d2 * d2 \<le> ?h * ?h - d1 * d1" by auto
  have "(?h * ?h - d2 * d2) * (?h * ?h - d2 * d2) * (?h * ?h - d2 * d2)
          \<le> (?h * ?h - d1 * d1) * (?h * ?h - d1 * d1) * (?h * ?h - d1 * d1)"
    using a by (intro mult_mono) auto
  then have "(?h * ?h - d2 * d2) * (?h * ?h - d2 * d2) * (?h * ?h - d2 * d2) * ?c
          \<le> (?h * ?h - d1 * d1) * (?h * ?h - d1 * d1) * (?h * ?h - d1 * d1) * ?c"
    using c by (rule mult_right_mono)
  moreover have "0 \<le> (?h * ?h - d1 * d1) * (?h * ?h - d1 * d1) * (?h * ?h - d1 * d1) * ?c"
    using c a by simp
  ultimately show ?thesis
    using assms by (auto simp: poly6Kernel_def Let_def)
qed

lemma densityDerivative_mono:
  assumes "0 \<le> K_SpikyPow2Grad s" "d1 \<le> d2" "d2 \<le> smoothingRadius (config s)"
  shows "densityDerivative s d1 \<le> densityDerivative s d2"
proof -
  let ?h = "smoothingRadius (config s)"
  have "(?h - d2) * K_SpikyPow2Grad s \<le> (?h - d1) * K_SpikyPow2Grad s"
    using assms by (intro mult_right_mono) auto
  then show ?thesis
    using assms by (auto simp: densityDerivative_def Let_def)
qed

lemma nearDensityDerivative_mono:
  assumes "0 \<le> K_SpikyPow3Grad s" "d1 \<le> d2" "d2 \<le> smoothingRadius (config s)"
  shows "nearDensityDerivative s d1 \<le> nearDensityDerivative s d2"
proof -
  let ?h = "smoothingRadius (config s)"
  have "(?h - d2) * (?h - d2) \<le> (?h - d1) * (?h - d1)"
    using assms by (intro mult_mono) auto
  then have "(?h - d2) * (?h - d2) * K_SpikyPow3Grad s \<le> (?h - d1) * (?h - d1) * K_SpikyPow3Grad s"
    using assms(1) by (rule mult_right_mono)
  then show ?thesis
    using assms by (auto simp: nearDensityDerivative_def Let_def)
qed

lemma kernels_beyond_cutoff:
  assumes "smoothingRadius (config s) < d"
  shows "densityKernel s d = 0" "nearDensityKernel s d = 0" "densityDerivative s d = 0"
    "nearDensityDerivative s d = 0" "poly6Kernel s d = 0"
  using assms
  by (simp_all add: densityKernel_def nearDensityKernel_def densityDerivative_def
      nearDensityDerivative_def poly6Kernel_def Let_def)

text \<open>
  Claim C8, as the code has it. With the coefficients of \<^verbatim>\<open>init\<close> for a radius \<open>h > 0\<close>:
  \<open>densityKernel h = 0\<close>; \<open>densityKernel 0\<close> is \<open>h\<^sup>2\<close> times \<open>K_SpikyPow2\<close>; the five
  kernels are 0 beyond \<open>h\<close> (the density, near-density and poly6 kernels from \<open>h\<close> on); on
  the distances from 0 to \<open>h\<close> the density, near-density and poly6 kernels never increase,
  and the two derivative kernels, which are negative there, never decrease.
\<close>

theorem kernel_support_and_monotonicity:
  assumes "s = init hw s0 cfg ps" and "h = smoothingRadius cfg" and "0 < h"
  shows "densityKernel s h = 0 \<and>
         densityKernel s 0 = h\<^sup>2 * K_SpikyPow2 s \<and>
         (\<forall>d. h < d \<longrightarrow>
            densityKernel s d = 0 \<and> nearDensityKernel s d = 0 \<and> densityDerivative s d = 0 \<and>
            nearDensityDerivative s d = 0 \<and> poly6Kernel s d = 0) \<and>
         (\<forall>d. h \<le> d \<longrightarrow> densityKernel s d = 0 \<and> nearDensityKernel s d = 0 \<and> poly6Kernel s d = 0) \<and>
         (\<forall>d1 d2. 0 \<le> d1 \<and> d1 \<le> d2 \<and> d2 \<le> h \<longrightarrow>
            densityKernel s d2 \<le> densityKernel s d1 \<and>
            nearDensityKernel s d2 \<le> nearDensityKernel s d1 \<and>
            poly6Kernel s d2 \<le> poly6Kernel s d1 \<and>
            densityDerivative s d1 \<le> densityDerivative s d2 \<and>
            nearDensityDerivative s d1 \<le> nearDensityDerivative s d2)"
proof -
  have h: "smoothingRadius (config s) = h"
    using assms by (simp add: init_fields)
  have pos: "0 < K_SpikyPow2 s" "0 < K_SpikyPow3 s" "0 < K_SpikyPow2Grad s" "0 < K_SpikyPow3Grad s"
    using assms coeff_pos [of cfg hw s0 ps] by simp_all
  have 1: "densityKernel s h = 0"
    by (simp add: densityKernel_def h)
  have 2: "densityKernel s 0 = h\<^sup>2 * K_SpikyPow2 s"
    using assms(3) by (simp add: densityKernel_def h power2_eq_square)
  have 3: "\<forall>d. h < d \<longrightarrow>
            densityKernel s d = 0 \<and> nearDensityKernel s d = 0 \<and> densityDerivative s d = 0 \<and>
            nearDensityDerivative s d = 0 \<and> poly6Kernel s d = 0"
    using kernels_beyond_cutoff [of s] h by simp
  have 4: "\<forall>d. h \<le> d \<longrightarrow> densityKernel s d = 0 \<and> nearDensityKernel s d = 0 \<and> poly6Kernel s d = 0"
    by (simp add: densityKernel_def nearDensityKernel_def poly6Kernel_def h)
  have 5: "\<forall>d1 d2. 0 \<le> d1 \<and> d1 \<le> d2 \<and> d2 \<le> h \<longrightarrow>
            densityKernel s d2 \<le> densityKernel s d1 \<and>
            nearDensityKernel s d2 \<le> nearDensityKernel s d1 \<and>
            poly6Kernel s d2 \<le> poly6Kernel s d1 \<and>
            densityDerivative s d1 \<le> densityDerivative s d2 \<and>
            nearDensityDerivative s d1 \<le> nearDensityDerivative s d2"
    using densityKernel_antimono [of s] nearDensityKernel_antimono [of s]
      poly6Kernel_antimono [of s] densityDerivative_mono [of s]
      nearDensityDerivative_mono [of s] pos h assms(3)
    by (simp add: less_imp_le)
  show ?thesis using 1 2 3 4 5 by blast
qed

theorem kernel_support_and_monotonicity_witness:
  "(0::real) < smoothingRadius defaultConfig \<and>
   densityKernel (init 1 initialSPH defaultConfig []) (smoothingRadius defaultConfig) = 0 \<and>
   densityKernel (init 1 initialSPH defaultConfig []) 0
     = (smoothingRadius defaultConfig)\<^sup>2 * K_SpikyPow2 (init 1 initialSPH defaultConfig []) \<and>
   poly6Kernel (init 1 initialSPH defaultConfig []) 0.3 = 0 \<and>
   densityKernel (init 1 initialSPH defaultConfig []) 0.1
     \<le> densityKernel (init 1 initialSPH defaultConfig []) 0.05 \<and>
   densityDerivative (init 1 initialSPH defaultConfig []) 0.05
     \<le> densityDerivative (init 1 initialSPH defaultConfig []) 0.1"
proof -
  have h: "smoothingRadius defaultConfig = 0.2"
    by (simp add: defaultConfig_def)
  have pos: "(0::real) < smoothingRadius defaultConfig"
    by (simp add: h)
  note k = kernel_support_and_monotonicity [OF refl refl pos, of 1 initialSPH "[]"]
  have a: "smoothingRadius defaultConfig < 0.3"
    by (simp add: h)
  have b: "(0::real) \<le> 0.05 \<and> (0.05::real) \<le> 0.1 \<and> 0.1 \<le> smoothingRadius defaultConfig"
    by (simp add: h)
  show ?thesis
    using pos k a b by blast
qed

text \<open>
  The derivative kernels are not non-increasing: under the default configuration both
  are smaller at distance 0 than at distance 0.2.
\<close>

theorem derivative_kernels_increase:
  "(0::real) \<le> 0 \<and> (0::real) \<le> 0.2 \<and> 0.2 \<le> smoothingRadius defaultConfig \<and>
   \<not> densityDerivative (init 1 initialSPH defaultConfig []) 0.2
       \<le> densityDerivative (init 1 initialSPH defaultConfig []) 0 \<and>
   \<not> nearDensityDerivative (init 1 initialSPH defaultConfig []) 0.2
       \<le> nearDensityDerivative (init 1 initialSPH defaultConfig []) 0"
  by (simp add: densityDerivative_def nearDensityDerivative_def init_fields defaultConfig_def
      PI_def)

section \<open>Properties of the seeder\<close>

lemma clamp_range: "lo \<le> hi \<Longrightarrow> lo \<le> clamp v lo hi \<and> clamp v lo hi \<le> hi"
  by (simp add: clamp_def)

text \<open>
  Claim C10. Whatever the count, the margin and the height ratio are, for a box size that
  is not negative and draws that lie between the bounds of their distribution, every
  particle of the result has each position component of absolute value at most half the
  box size, zero velocity and its predicted position equal to its position.
\<close>

theorem spawnParticlesInBox_inside:
  assumes "uniformDraws draw" and "0 \<le> boxSize"
    and "p \<in> set (spawnParticlesInBox draw count boxSize margin minHeightRatio)"
  shows "\<bar>vx (position p)\<bar> \<le> boxSize / 2 \<and> \<bar>vy (position p)\<bar> \<le> boxSize / 2 \<and>
         \<bar>vz (position p)\<bar> \<le> boxSize / 2 \<and> velocity p = (0, 0, 0) \<and>
         predicted p = position p \<and>
         length (spawnParticlesInBox draw count boxSize margin minHeightRatio) = count"
proof -
  define halfBox where "halfBox = boxSize * 0.5"
  define cm where "cm = clamp margin 0 halfBox"
  define maxY where "maxY = halfBox - cm"
  define minY0 where "minY0 = max (- halfBox + cm) (minHeightRatio * halfBox)"
  define minY where "minY = (if minY0 > maxY then maxY else minY0)"
  have hb: "0 \<le> halfBox" using assms(2) by (simp add: halfBox_def)
  have cm: "0 \<le> cm" "cm \<le> halfBox"
    using clamp_range [OF hb, of margin] by (simp_all add: cm_def)
  have xr: "- halfBox + cm \<le> halfBox - cm" using cm by simp
  have yr: "minY \<le> maxY" by (simp add: minY_def)
  have ylo: "- halfBox \<le> minY" using cm hb by (auto simp: minY_def minY0_def maxY_def)
  have yhi: "maxY \<le> halfBox" using cm by (simp add: maxY_def)
  obtain i where p: "p = mkParticle
                     (draw (3 * i) (- halfBox + cm) (halfBox - cm),
                      draw (3 * i + 1) minY maxY,
                      draw (3 * i + 2) (- halfBox + cm) (halfBox - cm))
                     (0, 0, 0)"
    using assms(3)
    unfolding spawnParticlesInBox_def Let_def halfBox_def cm_def maxY_def minY0_def minY_def
    by auto
  have dx: "- halfBox + cm \<le> draw (3 * i) (- halfBox + cm) (halfBox - cm)"
           "draw (3 * i) (- halfBox + cm) (halfBox - cm) \<le> halfBox - cm"
    using assms(1) xr by (simp_all add: uniformDraws_def)
  have dz: "- halfBox + cm \<le> draw (3 * i + 2) (- halfBox + cm) (halfBox - cm)"
           "draw (3 * i + 2) (- halfBox + cm) (halfBox - cm) \<le> halfBox - cm"
    using assms(1) xr by (simp_all add: uniformDraws_def)
  have dy: "minY \<le> draw (3 * i + 1) minY maxY" "draw (3 * i + 1) minY maxY \<le> maxY"
    using assms(1) yr by (simp_all add: uniformDraws_def)
  have "\<bar>draw (3 * i) (- halfBox + cm) (halfBox - cm)\<bar> \<le> halfBox"
    using dx cm by linarith
  moreover have "\<bar>draw (3 * i + 2) (- halfBox + cm) (halfBox - cm)\<bar> \<le> halfBox"
    using dz cm by linarith
  moreover have "\<bar>draw (3 * i + 1) minY maxY\<bar> \<le> halfBox"
    using dy ylo yhi by linarith
  moreover have "length (spawnParticlesInBox draw count boxSize margin minHeightRatio) = count"
    by (simp add: spawnParticlesInBox_def Let_def)
  ultimately show ?thesis
    by (simp add: p mkParticle_def halfBox_def)
qed

theorem spawnParticlesInBox_inside_witness:
  "uniformDraws (\<lambda>k a b. a) \<and> (0::real) \<le> 2 \<and>
   mkParticle (0, 0, 0) (0, 0, 0) \<in> set (spawnParticlesInBox (\<lambda>k a b. a) 1 2 5 2) \<and>
   \<bar>vx (position (mkParticle (0, 0, 0) (0, 0, 0)))\<bar> \<le> 2 / 2 \<and>
   \<bar>vy (position (mkParticle (0, 0, 0) (0, 0, 0)))\<bar> \<le> 2 / 2 \<and>
   \<bar>vz (position (mkParticle (0, 0, 0) (0, 0, 0)))\<bar> \<le> 2 / 2 \<and>
   velocity (mkParticle (0, 0, 0) (0, 0, 0)) = (0, 0, 0) \<and>
   predicted (mkParticle (0, 0, 0) (0, 0, 0)) = position (mkParticle (0, 0, 0) (0, 0, 0)) \<and>
   length (spawnParticlesInBox (\<lambda>k a b. a) 1 2 5 2) = 1"
proof -
  have d: "uniformDraws (\<lambda>k a b. a)" by (simp add: uniformDraws_def)
  have b: "(0::real) \<le> 2" by simp
  have m: "mkParticle (0, 0, 0) (0, 0, 0) \<in> set (spawnParticlesInBox (\<lambda>k a b. a) 1 2 5 2)"
    by (simp add: spawnParticlesInBox_def clamp_def Let_def)
  show ?thesis
    using d b m spawnParticlesInBox_inside [OF d b m] by simp
qed

section \<open>Properties of the index build\<close>

lemma zipAssign_full: "length new = m \<Longrightarrow> length old = m \<Longrightarrow> zipAssign m new old = new"
  by (simp add: zipAssign_def)

lemma computeKeys_keys:
  assumes "sized s"
  shows "keys (computeKeys s) = map (\<lambda>p. keyFromHash s (hash (getCell s p))) (particles s)"
  using assms by (simp add: computeKeys_def sized_def Let_def zipAssign_full)

lemma computeKeys_other:
  "particles (computeKeys s) = particles s" "config (computeKeys s) = config s"
  "offsets (computeKeys s) = offsets s" "reorderBuffer (computeKeys s) = reorderBuffer s"
  "velocitySnapshot (computeKeys s) = velocitySnapshot s"
  by (simp_all add: computeKeys_def Let_def)

lemma reorderParticles_fields:
  assumes "length (sortedIndices t) = n" "length (keys t) = n" "length (reorderBuffer t) = n"
  shows "particles (reorderParticles t) = map (\<lambda>a. particles t ! a) (sortedIndices t)"
    and "keys (reorderParticles t) = map (\<lambda>a. keys t ! a) (sortedIndices t)"
    and "config (reorderParticles t) = config t"
    and "offsets (reorderParticles t) = offsets t"
  using assms by (simp_all add: reorderParticles_def Let_def zipAssign_full)

text \<open>
  The offset fill after the first \<open>n\<close> indices: the entry of a key is at most every index
  seen that holds the key, and it is either still the initial value or an index seen that
  holds the key.
\<close>

lemma offsetStep_length: "length (offsetStep ks i off) = length off"
  by (simp add: offsetStep_def Let_def)

lemma fold_offsetStep_length: "length (fold (offsetStep ks) is off) = length off"
  by (induction "is" arbitrary: off) (simp_all add: offsetStep_length)

lemma fold_offsetStep_inv:
  assumes "\<forall>i<n. ks ! i < m" and "n \<le> N"
  shows "let off = fold (offsetStep ks) [0..<n] (replicate m N)
         in \<forall>k<m. (\<forall>i<n. ks ! i = k \<longrightarrow> off ! k \<le> i) \<and>
                   (off ! k = N \<or> (off ! k < n \<and> ks ! (off ! k) = k))"
  using assms
proof (induction n)
  case 0
  then show ?case by simp
next
  case (Suc n)
  define off where "off = fold (offsetStep ks) [0..<n] (replicate m N)"
  have len: "length off = m"
    by (simp add: off_def fold_offsetStep_length)
  have IH: "\<forall>k<m. (\<forall>i<n. ks ! i = k \<longrightarrow> off ! k \<le> i) \<and>
                   (off ! k = N \<or> (off ! k < n \<and> ks ! (off ! k) = k))"
    using Suc by (simp add: off_def Let_def)
  have k0: "ks ! n < m" using Suc.prems by simp
  have nN: "n < N" using Suc.prems by simp
  have step: "fold (offsetStep ks) [0..<Suc n] (replicate m N) = offsetStep ks n off"
    by (simp add: off_def)
  show ?case
  proof (cases "off ! (ks ! n) > n")
    case True
    then have new: "offsetStep ks n off = off[ks ! n := n]"
      by (simp add: offsetStep_def)
    have "\<forall>k<m. (\<forall>i<Suc n. ks ! i = k \<longrightarrow> (off[ks ! n := n]) ! k \<le> i) \<and>
                 ((off[ks ! n := n]) ! k = N \<or>
                  ((off[ks ! n := n]) ! k < Suc n \<and> ks ! ((off[ks ! n := n]) ! k) = k))"
    proof (intro allI impI)
      fix k assume k: "k < m"
      show "(\<forall>i<Suc n. ks ! i = k \<longrightarrow> (off[ks ! n := n]) ! k \<le> i) \<and>
                 ((off[ks ! n := n]) ! k = N \<or>
                  ((off[ks ! n := n]) ! k < Suc n \<and> ks ! ((off[ks ! n := n]) ! k) = k))"
      proof (cases "k = ks ! n")
        case True
        have "\<forall>i<n. ks ! i \<noteq> k"
        proof (intro allI impI notI)
          fix i assume "i < n" "ks ! i = k"
          then have "off ! k \<le> i" using IH k by blast
          then show False using \<open>i < n\<close> \<open>off ! (ks ! n) > n\<close> True by simp
        qed
        then show ?thesis using True k len by (auto simp: less_Suc_eq)
      next
        case False
        then show ?thesis using IH k len by (auto simp: less_Suc_eq)
      qed
    qed
    then show ?thesis by (simp only: step new Let_def)
  next
    case False
    then have new: "offsetStep ks n off = off"
      by (simp add: offsetStep_def)
    have "\<forall>k<m. (\<forall>i<Suc n. ks ! i = k \<longrightarrow> off ! k \<le> i) \<and>
                 (off ! k = N \<or> (off ! k < Suc n \<and> ks ! (off ! k) = k))"
    proof (intro allI impI)
      fix k assume k: "k < m"
      show "(\<forall>i<Suc n. ks ! i = k \<longrightarrow> off ! k \<le> i) \<and>
                 (off ! k = N \<or> (off ! k < Suc n \<and> ks ! (off ! k) = k))"
      proof (cases "k = ks ! n")
        case True
        then show ?thesis using IH k False nN by (auto simp: less_Suc_eq)
      next
        case False
        then show ?thesis using IH k by (auto simp: less_Suc_eq)
      qed
    qed
    then show ?thesis by (simp only: step new Let_def)
  qed
qed

lemma keyFromHash_cong:
  "length (particles s') = length (particles s) \<Longrightarrow> keyFromHash s' h = keyFromHash s h"
  by (simp add: keyFromHash_def)

lemma getCell_cong: "config s' = config s \<Longrightarrow> getCell s' p = getCell s p"
  by (simp add: getCell_def)

lemma keyFromHash_less: "0 < length (particles s) \<Longrightarrow> keyFromHash s h < length (particles s)"
  by (simp add: keyFromHash_def)

lemma fillOffsets_fields:
  "particles (fillOffsets t) = particles t" "keys (fillOffsets t) = keys t"
  "config (fillOffsets t) = config t"
  "offsets (fillOffsets t) = fold (offsetStep (keys t)) [0..<length (offsets t)]
                    (replicate (length (offsets t)) (length (particles t)))"
  by (simp_all add: fillOffsets_def)

lemma indexBuildWith_basic:
  assumes "sized s" and "sortedByKey (keys (computeKeys s)) si"
    and "length si = length (particles s)"
  shows "particles (indexBuildWith si s) = map (\<lambda>a. particles s ! a) si"
    and "keys (indexBuildWith si s) = map (\<lambda>a. keys (computeKeys s) ! a) si"
    and "config (indexBuildWith si s) = config s"
    and "length (offsets (indexBuildWith si s)) = length (particles s)"
proof -
  let ?t = "(computeKeys s)\<lparr>sortedIndices := si\<rparr>"
  have lk: "length (keys (computeKeys s)) = length (particles s)"
    using assms(1) by (simp add: computeKeys_keys)
  have l: "length (sortedIndices ?t) = length (particles s)"
    "length (keys ?t) = length (particles s)"
    "length (reorderBuffer ?t) = length (particles s)"
    using assms lk by (simp_all add: computeKeys_other sized_def)
  note r = reorderParticles_fields [OF l]
  show "particles (indexBuildWith si s) = map (\<lambda>a. particles s ! a) si"
    by (simp add: indexBuildWith_def fillOffsets_fields r computeKeys_other)
  show "keys (indexBuildWith si s) = map (\<lambda>a. keys (computeKeys s) ! a) si"
    by (simp add: indexBuildWith_def fillOffsets_fields r)
  show "config (indexBuildWith si s) = config s"
    by (simp add: indexBuildWith_def fillOffsets_fields r computeKeys_other)
  show "length (offsets (indexBuildWith si s)) = length (particles s)"
    using assms(1)
    by (simp add: indexBuildWith_def fillOffsets_fields r computeKeys_other
        fold_offsetStep_length sized_def)
qed

lemma indexBuildWith_indexed:
  assumes "sized s" and "sortedByKey (keys (computeKeys s)) si"
    and "length si = length (particles s)"
  shows "indexed (indexBuildWith si s)"
proof -
  let ?N = "length (particles s)"
  let ?s' = "indexBuildWith si s"
  let ?t = "reorderParticles ((computeKeys s)\<lparr>sortedIndices := si\<rparr>)"
  note b = indexBuildWith_basic [OF assms]
  have si: "\<forall>i<?N. si ! i < ?N"
    using assms(2,3) nth_mem [of _ si] by (fastforce simp: sortedByKey_def)
  have lp: "length (particles ?s') = ?N" using assms(3) by (simp add: b)
  have lk: "length (keys ?s') = ?N" using assms(3) by (simp add: b)
  have srt: "sorted (keys ?s')"
    using assms(2) by (simp add: b sortedByKey_def)
  have key: "\<forall>i<?N. keys ?s' ! i = keyFromHash ?s' (hash (getCell ?s' (particles ?s' ! i))) \<and>
                     keys ?s' ! i < ?N"
  proof (intro allI impI)
    fix i assume i: "i < ?N"
    then have a: "si ! i < ?N" using si by simp
    have "keys ?s' ! i = keys (computeKeys s) ! (si ! i)"
      using i assms(3) by (simp add: b)
    also have "\<dots> = keyFromHash s (hash (getCell s (particles s ! (si ! i))))"
      using a by (simp add: computeKeys_keys [OF assms(1)])
    also have "\<dots> = keyFromHash ?s' (hash (getCell ?s' (particles ?s' ! i)))"
      using i assms(3) lp b(3)
      by (simp add: keyFromHash_cong [of ?s' s] getCell_cong [of ?s' s] b(1))
    finally have 1: "keys ?s' ! i = keyFromHash ?s' (hash (getCell ?s' (particles ?s' ! i)))" .
    have "0 < length (particles ?s')" using i lp by (cases "particles s") simp_all
    then have "keyFromHash ?s' (hash (getCell ?s' (particles ?s' ! i))) < ?N"
      using keyFromHash_less [of ?s'] lp by simp
    with 1 show "keys ?s' ! i = keyFromHash ?s' (hash (getCell ?s' (particles ?s' ! i))) \<and>
                     keys ?s' ! i < ?N" by simp
  qed
  have kt: "keys ?t = keys ?s'" "length (offsets ?t) = ?N" "length (particles ?t) = ?N"
    using b(4) lp by (simp_all add: indexBuildWith_def fillOffsets_fields fold_offsetStep_length)
  have off: "offsets ?s' = fold (offsetStep (keys ?s')) [0..<?N] (replicate ?N ?N)"
    using kt by (simp add: indexBuildWith_def fillOffsets_fields)
  have "\<forall>i<?N. keys ?s' ! i < ?N" using key by blast
  then have inv: "\<forall>k<?N. (\<forall>i<?N. keys ?s' ! i = k \<longrightarrow> offsets ?s' ! k \<le> i) \<and>
                   (offsets ?s' ! k = ?N \<or> (offsets ?s' ! k < ?N \<and> keys ?s' ! (offsets ?s' ! k) = k))"
    using fold_offsetStep_inv [of ?N "keys ?s'" ?N ?N] by (simp add: off Let_def)
  show ?thesis
    unfolding indexed_def lp using lk b(4) srt key inv by blast
qed

lemma sortIndices_sortedByKey: "sortedByKey ks (sortIndices ks n)"
  by (simp add: sortedByKey_def sortIndices_def sorted_sort_key)

lemma indexBuild_eq:
  "indexBuild s = indexBuildWith (sortIndices (keys (computeKeys s)) (length (sortedIndices s))) s"
  by (simp add: indexBuild_def indexBuildWith_def buildSpatialHash_def Let_def computeKeys_def)

lemma indexBuild_indexed:
  assumes "sized s"
  shows "indexed (indexBuild s)"
  using assms indexBuildWith_indexed [OF assms sortIndices_sortedByKey]
  by (simp add: indexBuild_eq sortIndices_def sized_def)

text \<open>What an indexed state says about keys and offsets, index by index.\<close>

lemma indexed_consistent:
  assumes ix: "indexed s'" and lp: "length (particles s') = N"
  shows "length (keys s') = N \<and> length (offsets s') = N \<and> sorted (keys s') \<and>
         (\<forall>i<N. keys s' ! i = keyFromHash s' (hash (getCell s' (particles s' ! i))) \<and>
                 keys s' ! i < N \<and>
                 offsets s' ! (keys s' ! i) \<le> i \<and>
                 (\<exists>e. {j. j < N \<and> keys s' ! j = keys s' ! i} = {offsets s' ! (keys s' ! i)..<e})) \<and>
         (\<forall>k<N. k \<notin> set (keys s') \<longrightarrow> offsets s' ! k = N)"
proof -
  have lk: "length (keys s') = N" and lo: "length (offsets s') = N"
    using ix lp by (simp_all add: indexed_def)
  have srt: "sorted (keys s')" using ix by (simp add: indexed_def)
  have kb: "\<forall>i<N. keys s' ! i < N" using ix lp unfolding indexed_def by blast
  have tie: "\<forall>i<N. keys s' ! i = keyFromHash s' (hash (getCell s' (particles s' ! i)))"
    using ix lp unfolding indexed_def by blast
  have inv: "\<forall>k<N. (\<forall>i<N. keys s' ! i = k \<longrightarrow> offsets s' ! k \<le> i) \<and>
                   (offsets s' ! k = N \<or> (offsets s' ! k < N \<and> keys s' ! (offsets s' ! k) = k))"
    using ix lp unfolding indexed_def by blast
  have per: "\<forall>i<N. keys s' ! i = keyFromHash s' (hash (getCell s' (particles s' ! i))) \<and>
                 keys s' ! i < N \<and>
                 offsets s' ! (keys s' ! i) \<le> i \<and>
                 (\<exists>e. {j. j < N \<and> keys s' ! j = keys s' ! i} = {offsets s' ! (keys s' ! i)..<e})"
  proof (intro allI impI)
    fix i assume i: "i < N"
    let ?k = "keys s' ! i"
    let ?a = "offsets s' ! ?k"
    let ?S = "{j. j < N \<and> keys s' ! j = ?k}"
    have k: "?k < N" using kb i by simp
    have t: "?k = keyFromHash s' (hash (getCell s' (particles s' ! i)))" using tie i by blast
    have a_le: "?a \<le> i" using inv k i by blast
    have fin: "finite ?S" by simp
    have ne: "?S \<noteq> {}" using i by blast
    define b where "b = Max ?S"
    have bS: "b \<in> ?S" unfolding b_def using Max_in [OF fin ne] .
    have "?S = {?a..<Suc b}"
    proof (intro set_eqI iffI)
      fix j assume j: "j \<in> ?S"
      then have "?a \<le> j" using inv k by blast
      moreover have "j \<le> b" unfolding b_def using Max_ge [OF fin j] .
      ultimately show "j \<in> {?a..<Suc b}" by simp
    next
      fix j assume j: "j \<in> {?a..<Suc b}"
      have aS: "?a < N \<and> keys s' ! ?a = ?k" using inv k a_le i by force
      have jb: "j \<le> b" and aj: "?a \<le> j" using j by simp_all
      have bN: "b < N" and kb': "keys s' ! b = ?k" using bS by simp_all
      have "keys s' ! ?a \<le> keys s' ! j"
        using srt aj jb bN lk by (intro sorted_nth_mono) simp_all
      moreover have "keys s' ! j \<le> keys s' ! b"
        using srt jb bN lk by (intro sorted_nth_mono) simp_all
      ultimately have "keys s' ! j = ?k" using aS kb' by simp
      then show "j \<in> ?S" using jb bN by simp
    qed
    then have "\<exists>e. ?S = {?a..<e}" by blast
    with t k a_le
    show "?k = keyFromHash s' (hash (getCell s' (particles s' ! i))) \<and> ?k < N \<and> ?a \<le> i \<and>
          (\<exists>e. ?S = {?a..<e})"
      by (intro conjI)
  qed
  have emp: "\<forall>k<N. k \<notin> set (keys s') \<longrightarrow> offsets s' ! k = N"
  proof (intro allI impI)
    fix k assume k: "k < N" and nk: "k \<notin> set (keys s')"
    have "offsets s' ! k = N \<or> (offsets s' ! k < N \<and> keys s' ! (offsets s' ! k) = k)"
      using inv k by blast
    moreover have "\<not> (offsets s' ! k < N \<and> keys s' ! (offsets s' ! k) = k)"
    proof
      assume a: "offsets s' ! k < N \<and> keys s' ! (offsets s' ! k) = k"
      then have "keys s' ! (offsets s' ! k) \<in> set (keys s')"
        using lk by (intro nth_mem) simp
      then show False using a nk by simp
    qed
    ultimately show "offsets s' ! k = N" by blast
  qed
  show ?thesis using lk lo srt per emp by blast
qed

lemma indexBuild_length:
  assumes "sized s"
  shows "length (particles (indexBuild s)) = length (particles s)"
proof -
  have l: "length (sortIndices (keys (computeKeys s)) (length (sortedIndices s)))
             = length (particles s)"
    using assms by (simp add: sortIndices_def sized_def)
  show ?thesis
    using indexBuildWith_basic(1) [OF assms sortIndices_sortedByKey l] l
    by (simp add: indexBuild_eq)
qed

text \<open>
  The index build keeps the configuration and leaves the particles in an order that is a
  permutation of the order before.
\<close>

lemma indexBuild_permutes:
  assumes "sized s"
  shows "\<exists>si. distinct si \<and> set si = {0..<length (particles s)} \<and>
               particles (indexBuild s) = map (\<lambda>a. particles s ! a) si"
    and "config (indexBuild s) = config s"
proof -
  let ?si = "sortIndices (keys (computeKeys s)) (length (sortedIndices s))"
  have l: "length ?si = length (particles s)"
    using assms by (simp add: sortIndices_def sized_def)
  have sk: "sortedByKey (keys (computeKeys s)) ?si" by (rule sortIndices_sortedByKey)
  note b = indexBuildWith_basic [OF assms sk l]
  have "distinct ?si \<and> set ?si = {0..<length (particles s)}"
    using sk l by (simp add: sortedByKey_def)
  then show "\<exists>si. distinct si \<and> set si = {0..<length (particles s)} \<and>
               particles (indexBuild s) = map (\<lambda>a. particles s ! a) si"
    using b(1) by (auto simp: indexBuild_eq)
  show "config (indexBuild s) = config s"
    using b(3) by (simp add: indexBuild_eq)
qed

text \<open>
  Claim C7. After the index build of a step (key computation, sort, reorder, offset fill,
  as \<^verbatim>\<open>step\<close> runs them) on a state with N at least 1 particles and buffers of that size:
  the particles are a permutation of those before and the buffers keep their size; the keys
  are in order; for every index \<open>i\<close> below N the key at \<open>i\<close> is the key of the particle now at
  \<open>i\<close> and lies below N, the offset of that key is at most \<open>i\<close>, and the indices that share
  the key of \<open>i\<close> are exactly one range of consecutive indices that starts at that offset;
  the offset of a key no particle holds is N.
\<close>

theorem offsets_consistent:
  assumes "sized s" and "1 \<le> length (particles s)"
    and "s' = indexBuild s" and "N = length (particles s)"
  shows "length (particles s') = N \<and> length (keys s') = N \<and> length (offsets s') = N \<and>
         config s' = config s \<and>
         (\<exists>si. distinct si \<and> set si = {0..<N} \<and> particles s' = map (\<lambda>a. particles s ! a) si) \<and>
         sorted (keys s') \<and>
         (\<forall>i<N. keys s' ! i = keyFromHash s' (hash (getCell s' (particles s' ! i))) \<and>
                 keys s' ! i < N \<and>
                 offsets s' ! (keys s' ! i) \<le> i \<and>
                 (\<exists>e. {j. j < N \<and> keys s' ! j = keys s' ! i} = {offsets s' ! (keys s' ! i)..<e})) \<and>
         (\<forall>k<N. k \<notin> set (keys s') \<longrightarrow> offsets s' ! k = N)"
proof -
  have ix: "indexed s'"
    using assms(1,3) by (simp add: indexBuild_indexed)
  have lp: "length (particles s') = N"
    using assms(1,3,4) by (simp add: indexBuild_length)
  have pm: "\<exists>si. distinct si \<and> set si = {0..<N} \<and> particles s' = map (\<lambda>a. particles s ! a) si"
    using indexBuild_permutes(1) [OF assms(1)] assms(3,4) by simp
  have cf: "config s' = config s"
    using indexBuild_permutes(2) [OF assms(1)] assms(3) by simp
  show ?thesis
    using lp pm cf indexed_consistent [OF ix lp] by blast
qed

subsection \<open>The six-particle scenario, evaluated\<close>

lemma upt6: "[0..<6] = [0, 1, 2, 3, 4, 5]"
  by (simp add: upt_rec)

lemma demo_keys0:
  "keys (computeKeys demoInit) = [0, 0, 4, 4, 4, 4]"
  by (simp add: computeKeys_def demoInit_def init_def initialSPH_def demoConfig_def
      defaultConfig_def demoParticles_def
      mkParticle_def resize_def zipAssign_def keyFromHash_def getCell_def truncInt_def
      hash_def HASH_X_def HASH_Y_def HASH_Z_def Let_def)

lemma computeKeys_more:
  "sortedIndices (computeKeys s) = sortedIndices s" "threads (computeKeys s) = threads s"
  by (simp_all add: computeKeys_def Let_def)

lemma demo_len: "length demoParticles = 6"
  by (simp add: demoParticles_def)

lemma demo_init:
  "particles demoInit = demoParticles"
  "config demoInit = demoConfig"
  "length (sortedIndices demoInit) = 6"
  "length (offsets demoInit) = 6"
  "length (reorderBuffer demoInit) = 6"
  "threads demoInit = 1"
  by (simp_all add: demoInit_def init_def initialSPH_def demo_len resize_def Let_def)

lemma applyExternalForces_demo:
  assumes "particles s = demoParticles" and "config s = demoConfig" and "i < 6"
  shows "applyExternalForces dt i s = Inr s"
proof -
  have "i \<in> {0, 1, 2, 3, 4, 5}" using assms(3) by auto
  then have p: "(particles s ! i)\<lparr>velocity :=
                   (vx (velocity (particles s ! i)),
                    vy (velocity (particles s ! i)) + gravity (config s) * dt,
                    vz (velocity (particles s ! i))),
                 predicted := vadd (position (particles s ! i))
                   (vscale (vx (velocity (particles s ! i)),
                            vy (velocity (particles s ! i)) + gravity (config s) * dt,
                            vz (velocity (particles s ! i))) dt)\<rparr> = particles s ! i"
    by (auto simp: assms(1,2) demoParticles_def demoConfig_def mkParticle_def)
  show ?thesis
    unfolding applyExternalForces_def Let_def p
    by (simp add: setParticle_def)
qed

text \<open>The first pass of a step, whatever \<open>dt\<close> is, leaves the scenario as it is.\<close>

lemma demo_external_forces:
  "workers (threads demoInit)
     ((length (particles demoInit) + threads demoInit - 1) div threads demoInit)
     (applyExternalForces dt) demoInit = Inr demoInit"
  by (simp add: demo_init demo_len workers_def rangePass_def upt6 applyExternalForces_demo)

lemma demo_sorted: "sortIndices [0, 0, 4, 4, 4, 4] 6 = [0..<6]"
  by (simp add: sortIndices_def upt6)

lemma demo_build:
  "keys (buildSpatialHash demoInit) = [0, 0, 4, 4, 4, 4]"
  "sortedIndices (buildSpatialHash demoInit) = [0..<6]"
  "particles (buildSpatialHash demoInit) = demoParticles"
  "config (buildSpatialHash demoInit) = demoConfig"
  "length (offsets (buildSpatialHash demoInit)) = 6"
  "length (reorderBuffer (buildSpatialHash demoInit)) = 6"
  by (simp_all add: buildSpatialHash_def Let_def demo_keys0 demo_init computeKeys_other
      computeKeys_more demo_sorted)

lemma map_nth6: "length xs = 6 \<Longrightarrow> map ((!) xs) [0..<6] = xs"
  using map_nth [of xs] by simp

lemma demo_reorder:
  "keys (reorderParticles (buildSpatialHash demoInit)) = [0, 0, 4, 4, 4, 4]"
  "particles (reorderParticles (buildSpatialHash demoInit)) = demoParticles"
  "config (reorderParticles (buildSpatialHash demoInit)) = demoConfig"
  "length (offsets (reorderParticles (buildSpatialHash demoInit))) = 6"
  by (simp_all add: reorderParticles_def Let_def demo_build zipAssign_def map_nth6 demo_len)

lemma demo_fold:
  "fold (offsetStep [0, 0, 4, 4, 4, 4]) [0..<6] (replicate 6 6) = [0, 6, 6, 6, 2, 6]"
  by (simp add: offsetStep_def eval_nat_numeral)

lemma demoState_fields:
  "keys demoState = [0, 0, 4, 4, 4, 4]"
  "offsets demoState = [0, 6, 6, 6, 2, 6]"
  "particles demoState = demoParticles"
  "config demoState = demoConfig"
  by (simp_all add: demoState_def indexBuild_def fillOffsets_def demo_reorder demo_len demo_fold)

text \<open>The index build on the six particles in the other order.\<close>

lemma shuffled_len: "length shuffledParticles = 6"
  by (simp add: shuffledParticles_def)

lemma shuffled_init:
  "particles shuffledInit = shuffledParticles"
  "config shuffledInit = demoConfig"
  "length (sortedIndices shuffledInit) = 6"
  "length (offsets shuffledInit) = 6"
  "length (reorderBuffer shuffledInit) = 6"
  by (simp_all add: shuffledInit_def init_def initialSPH_def shuffled_len resize_def Let_def)

lemma shuffled_keys0:
  "keys (computeKeys shuffledInit) = [4, 0, 4, 0, 4, 4]"
  by (simp add: computeKeys_def shuffledInit_def init_def initialSPH_def demoConfig_def
      defaultConfig_def shuffledParticles_def
      mkParticle_def resize_def zipAssign_def keyFromHash_def getCell_def truncInt_def
      hash_def HASH_X_def HASH_Y_def HASH_Z_def Let_def)

lemma shuffled_sorted: "sortIndices [4, 0, 4, 0, 4, 4] 6 = [1, 3, 0, 2, 4, 5]"
  by (simp add: sortIndices_def upt6)

lemma shuffled_build:
  "keys (buildSpatialHash shuffledInit) = [4, 0, 4, 0, 4, 4]"
  "sortedIndices (buildSpatialHash shuffledInit) = [1, 3, 0, 2, 4, 5]"
  "particles (buildSpatialHash shuffledInit) = shuffledParticles"
  "length (offsets (buildSpatialHash shuffledInit)) = 6"
  "length (reorderBuffer (buildSpatialHash shuffledInit)) = 6"
  by (simp_all add: buildSpatialHash_def Let_def shuffled_keys0 shuffled_init computeKeys_other
      computeKeys_more shuffled_sorted)

lemma shuffled_reorder:
  "keys (reorderParticles (buildSpatialHash shuffledInit)) = [0, 0, 4, 4, 4, 4]"
  "particles (reorderParticles (buildSpatialHash shuffledInit)) = demoParticles"
  "length (offsets (reorderParticles (buildSpatialHash shuffledInit))) = 6"
  by (simp_all add: reorderParticles_def Let_def shuffled_build zipAssign_def
      shuffledParticles_def demoParticles_def)

lemma shuffled_fields:
  "keys (indexBuild shuffledInit) = [0, 0, 4, 4, 4, 4]"
  "offsets (indexBuild shuffledInit) = [0, 6, 6, 6, 2, 6]"
  "particles (indexBuild shuffledInit) = demoParticles"
  by (simp_all add: indexBuild_def fillOffsets_def shuffled_reorder demo_len demo_fold)

theorem offsets_consistent_witness:
  "sized shuffledInit \<and> 1 \<le> length (particles shuffledInit) \<and>
   keys (computeKeys shuffledInit) = [4, 0, 4, 0, 4, 4] \<and>
   particles shuffledInit = shuffledParticles \<and>
   particles (indexBuild shuffledInit) = demoParticles \<and>
   keys (indexBuild shuffledInit) = [0, 0, 4, 4, 4, 4] \<and>
   offsets (indexBuild shuffledInit) = [0, 6, 6, 6, 2, 6] \<and>
   sorted (keys (indexBuild shuffledInit)) \<and>
   keys (indexBuild shuffledInit) ! 3
     = keyFromHash (indexBuild shuffledInit)
         (hash (getCell (indexBuild shuffledInit) (particles (indexBuild shuffledInit) ! 3))) \<and>
   keys (indexBuild shuffledInit) ! 3 < 6 \<and>
   offsets (indexBuild shuffledInit) ! (keys (indexBuild shuffledInit) ! 3) \<le> 3 \<and>
   (\<exists>e. {j. j < 6 \<and> keys (indexBuild shuffledInit) ! j = keys (indexBuild shuffledInit) ! 3}
          = {offsets (indexBuild shuffledInit) ! (keys (indexBuild shuffledInit) ! 3)..<e}) \<and>
   offsets (indexBuild shuffledInit) ! 1 = 6"
proof -
  have a: "sized shuffledInit" by (simp add: shuffledInit_def sized_init)
  have b: "1 \<le> length (particles shuffledInit)" by (simp add: shuffled_init shuffled_len)
  have n: "6 = length (particles shuffledInit)" by (simp add: shuffled_init shuffled_len)
  note t = offsets_consistent [OF a b refl n]
  have k: "(1::nat) \<notin> set (keys (indexBuild shuffledInit))" by (simp add: shuffled_fields)
  have "(3::nat) < 6" by simp
  with t have i3: "keys (indexBuild shuffledInit) ! 3
     = keyFromHash (indexBuild shuffledInit)
         (hash (getCell (indexBuild shuffledInit) (particles (indexBuild shuffledInit) ! 3))) \<and>
      keys (indexBuild shuffledInit) ! 3 < 6 \<and>
      offsets (indexBuild shuffledInit) ! (keys (indexBuild shuffledInit) ! 3) \<le> 3 \<and>
      (\<exists>e. {j. j < 6 \<and> keys (indexBuild shuffledInit) ! j = keys (indexBuild shuffledInit) ! 3}
          = {offsets (indexBuild shuffledInit) ! (keys (indexBuild shuffledInit) ! 3)..<e})"
    by blast
  have "(1::nat) < 6" by simp
  with t k have o1: "offsets (indexBuild shuffledInit) ! 1 = 6" by blast
  from t have srt: "sorted (keys (indexBuild shuffledInit))" by blast
  show ?thesis
    using a b shuffled_keys0 shuffled_init(1) shuffled_fields i3 o1 srt by blast
qed

section \<open>Properties of the bucket walks\<close>

lemma neighborWalk_to_end:
  assumes "i < length (particles s)"
    and "\<forall>j. i \<le> j \<and> j < length (particles s) \<longrightarrow> keys s ! j = key"
  shows "neighborWalk s body key i acc = Inl OutOfBounds"
  using assms
proof (induction "length (particles s) - i" arbitrary: i acc)
  case 0
  then show ?case by simp
next
  case (Suc d)
  have here: "keys s ! i = key" using Suc.prems by simp
  show ?case
  proof (cases "length (particles s) \<le> Suc i")
    case True
    then show ?thesis
      using Suc.prems(1) here by (subst neighborWalk.simps) (simp add: Let_def)
  next
    case False
    then have "neighborWalk s body key (Suc i) (body (Suc i) acc) = Inl OutOfBounds"
      using Suc.hyps Suc.prems by (intro Suc.hyps(1)) auto
    then show ?thesis
      using Suc.prems(1) here False by (subst neighborWalk.simps) (simp add: Let_def)
  qed
qed

lemma neighborWalk_error: "neighborWalk s body key i acc = Inl e \<Longrightarrow> e = OutOfBounds"
proof (induction s body key i acc rule: neighborWalk.induct)
  case (1 s body key neighborIndex acc)
  show ?case
  proof (cases "neighborIndex < length (particles s) \<and> keys s ! neighborIndex = key")
    case True
    show ?thesis
    proof (cases "length (particles s) \<le> Suc neighborIndex")
      case le: True
      then show ?thesis
        using "1.prems" True by (subst (asm) neighborWalk.simps) (simp add: Let_def)
    next
      case False
      then have "neighborWalk s body key (Suc neighborIndex) (body (Suc neighborIndex) acc) = Inl e"
        using "1.prems" True by (subst (asm) neighborWalk.simps) (simp add: Let_def)
      then show ?thesis
        using "1.IH" [OF True refl False] by simp
    qed
  next
    case False
    then show ?thesis
      using "1.prems" by (subst (asm) neighborWalk.simps) auto
  qed
qed

lemma foldE_Inl_inv:
  assumes "x \<in> set xs" and "I s"
    and "\<And>s. I s \<Longrightarrow> f x s = Inl e"
    and "\<And>y s s'. I s \<Longrightarrow> f y s = Inr s' \<Longrightarrow> I s'"
    and "\<And>y s e'. f y s = Inl e' \<Longrightarrow> e' = e"
  shows "foldE f xs s = Inl e"
  using assms(1,2)
proof (induction xs arbitrary: s)
  case Nil
  then show ?case by simp
next
  case (Cons a xs)
  show ?case
  proof (cases "f a s")
    case (Inl e')
    then show ?thesis using assms(5) [of a s e'] by simp
  next
    case (Inr s')
    then have "a \<noteq> x" using assms(3) [OF Cons.prems(2)] by auto
    then have "x \<in> set xs" using Cons.prems(1) by simp
    moreover have "I s'" using assms(4) [OF Cons.prems(2) Inr] .
    ultimately show ?thesis using Cons.IH Inr by simp
  qed
qed

lemma foldE_Inr_inv:
  assumes "foldE f xs s = Inr s'" and "I s"
    and "\<And>y s s'. I s \<Longrightarrow> f y s = Inr s' \<Longrightarrow> I s'"
  shows "I s'"
  using assms(1,2)
proof (induction xs arbitrary: s)
  case Nil
  then show ?case by simp
next
  case (Cons a xs)
  then show ?case using assms(3) by (cases "f a s") auto
qed

lemma foldE_error:
  assumes "foldE f xs s = Inl e'" and "\<And>y s e'. f y s = Inl e' \<Longrightarrow> e' = e"
  shows "e' = e"
  using assms(1)
proof (induction xs arbitrary: s)
  case Nil
  then show ?case by simp
next
  case (Cons a xs)
  then show ?case using assms(2) by (cases "f a s") auto
qed

lemma vadd_zero_cell: "vadd c ((0, 0, 0) :: (32 word) Vec3) = c"
  by (cases c) simp

lemma origin_in_OFFSETS_3D: "(0, 0, 0) \<in> set OFFSETS_3D"
  by (simp add: OFFSETS_3D_def)

lemma neighborhoodWalk_error:
  "neighborhoodWalk s body particle acc = Inl e \<Longrightarrow> e = OutOfBounds"
  unfolding neighborhoodWalk_def Let_def
  by (erule foldE_error) (rule neighborWalk_error)

text \<open>The walk of a particle of the last bucket reads the entry at index N.\<close>

lemma neighborhoodWalk_last_bucket:
  assumes ix: "indexed s" and i: "i < length (particles s)"
    and last: "keys s ! i = keys s ! (length (particles s) - 1)"
  shows "neighborhoodWalk s body (particles s ! i) acc = Inl OutOfBounds"
proof -
  let ?N = "length (particles s)"
  let ?k = "keys s ! i"
  let ?a = "offsets s ! ?k"
  have kN: "?k < ?N" and kkey: "?k = keyFromHash s (hash (getCell s (particles s ! i)))"
    using ix i unfolding indexed_def by blast+
  have inv: "(\<forall>j<?N. keys s ! j = ?k \<longrightarrow> ?a \<le> j) \<and>
             (?a = ?N \<or> (?a < ?N \<and> keys s ! ?a = ?k))"
    using ix kN unfolding indexed_def by blast
  have a_le: "?a \<le> i" using inv i by blast
  then have aN: "?a < ?N" and ka: "keys s ! ?a = ?k" using inv i by auto
  have srt: "sorted (keys s)" and lk: "length (keys s) = ?N"
    using ix unfolding indexed_def by blast+
  have run: "\<forall>j. ?a \<le> j \<and> j < ?N \<longrightarrow> keys s ! j = ?k"
  proof (intro allI impI)
    fix j assume j: "?a \<le> j \<and> j < ?N"
    then have j1: "?a \<le> j" and j2: "j \<le> ?N - 1" and j3: "?N - 1 < length (keys s)"
      and j4: "j < length (keys s)"
      using lk by auto
    have "keys s ! ?a \<le> keys s ! j"
      using srt j1 j4 by (rule sorted_nth_mono)
    moreover have "keys s ! j \<le> keys s ! (?N - 1)"
      using srt j2 j3 by (rule sorted_nth_mono)
    ultimately show "keys s ! j = ?k" using ka last by simp
  qed
  have fail: "\<And>acc. neighborWalk s body ?k ?a acc = Inl OutOfBounds"
    using neighborWalk_to_end [OF aN run] .
  show ?thesis
    unfolding neighborhoodWalk_def Let_def
  proof (rule foldE_Inl_inv [where I = "\<lambda>_. True" and x = "(0, 0, 0)"])
    show "(0, 0, 0) \<in> set OFFSETS_3D" by (rule origin_in_OFFSETS_3D)
    show "neighborWalk s body
            (keyFromHash s (hash (vadd (getCell s (particles s ! i)) (0, 0, 0))))
            (offsets s ! keyFromHash s (hash (vadd (getCell s (particles s ! i)) (0, 0, 0))))
            acc' = Inl OutOfBounds" for acc'
      using fail [of acc'] kkey by (simp add: vadd_zero_cell)
    show "e' = OutOfBounds"
      if "neighborWalk s body (keyFromHash s (hash (vadd (getCell s (particles s ! i)) y)))
            (offsets s ! keyFromHash s (hash (vadd (getCell s (particles s ! i)) y))) acc' = Inl e'"
      for y acc' e'
      using that by (rule neighborWalk_error)
  qed simp_all
qed

lemma calculatePressureForce_last:
  assumes "indexed s" and "0 < length (particles s)"
  shows "calculatePressureForce dt (length (particles s) - 1) s = Inl OutOfBounds"
proof -
  have "neighborhoodWalk s (pressureNeighbor s (length (particles s) - 1))
          (particles s ! (length (particles s) - 1)) (vzero, 0) = Inl OutOfBounds"
    using assms by (intro neighborhoodWalk_last_bucket) simp_all
  then show ?thesis
    by (simp add: calculatePressureForce_def thenE_def)
qed

lemma calculateViscosity_last:
  assumes "indexed s" and "0 < length (particles s)"
  shows "calculateViscosity dt (length (particles s) - 1) s = Inl OutOfBounds"
proof -
  have "neighborhoodWalk s (viscosityNeighbor s (length (particles s) - 1))
          (particles s ! (length (particles s) - 1)) vzero = Inl OutOfBounds"
    using assms by (intro neighborhoodWalk_last_bucket) simp_all
  then show ?thesis
    by (simp add: calculateViscosity_def thenE_def)
qed

lemma thenE_Inl: "thenE (Inl e) f = Inl e"
  by (simp add: thenE_def)

lemma thenE_Inr: "thenE (Inr a) f = f a"
  by (simp add: thenE_def)

lemma getCell_predicted: "predicted p = predicted q \<Longrightarrow> getCell s p = getCell s q"
  by (simp add: getCell_def)

lemma indexed_setParticle:
  assumes "indexed s" and "predicted p' = predicted (particles s ! i)"
  shows "indexed (setParticle i p' s)"
proof -
  have cell: "getCell (setParticle i p' s) ((particles s)[i := p'] ! j) = getCell s (particles s ! j)"
    if "j < length (particles s)" for j
    using that assms(2)
    by (cases "j = i") (simp_all add: getCell_def setParticle_def)
  have key: "keyFromHash (setParticle i p' s) h = keyFromHash s h" for h
    by (simp add: keyFromHash_def setParticle_def)
  have ks: "keys (setParticle i p' s) = keys s" "offsets (setParticle i p' s) = offsets s"
    "length (particles (setParticle i p' s)) = length (particles s)"
    "particles (setParticle i p' s) = (particles s)[i := p']"
    by (simp_all add: setParticle_def)
  have "\<forall>j<length (particles s).
          keys s ! j = keyFromHash s (hash (getCell (setParticle i p' s) ((particles s)[i := p'] ! j)))
          \<and> keys s ! j < length (particles s)"
  proof (intro allI impI)
    fix j assume j: "j < length (particles s)"
    have "keys s ! j = keyFromHash s (hash (getCell s (particles s ! j))) \<and>
          keys s ! j < length (particles s)"
      using assms(1) j unfolding indexed_def by blast
    then show "keys s ! j
          = keyFromHash s (hash (getCell (setParticle i p' s) ((particles s)[i := p'] ! j)))
          \<and> keys s ! j < length (particles s)"
      unfolding cell [OF j] .
  qed
  then show ?thesis
    using assms(1) unfolding indexed_def ks key length_list_update by blast
qed

lemma indexed_useViscosity: "indexed (s\<lparr>useViscosity := b\<rparr>) = indexed s"
  by (simp add: indexed_def keyFromHash_def getCell_def)

lemma setParticle_length: "length (particles (setParticle i p s)) = length (particles s)"
  by (simp add: setParticle_def)

lemma pressureFinish_predicted: "predicted (pressureFinish dt p acc) = predicted p"
  by (simp add: pressureFinish_def Let_def)

lemma calculatePressureForce_Inr:
  assumes "calculatePressureForce dt i s = Inr s'"
  shows "\<exists>acc. s' = setParticle i (pressureFinish dt (particles s ! i) acc) s"
  using assms by (auto simp: calculatePressureForce_def thenE_def split: sum.splits)

lemma calculatePressureForce_error: "calculatePressureForce dt i s = Inl e \<Longrightarrow> e = OutOfBounds"
  by (auto simp: calculatePressureForce_def thenE_def split: sum.splits
      dest: neighborhoodWalk_error)

lemma calculateDensities_Inr:
  "\<exists>d nd. calculateDensities i s
     = Inr (setParticle i ((particles s ! i)\<lparr>density := d, nearDensity := nd\<rparr>) s)"
  unfolding calculateDensities_def Let_def by (auto split: prod.splits)

lemma applyExternalForces_Inr:
  "\<exists>p. applyExternalForces dt i s = Inr (setParticle i p s)"
  unfolding applyExternalForces_def Let_def by blast

lemma sized_setParticle: "sized (setParticle i p s) = sized s"
  by (simp add: sized_def setParticle_def)

lemma threads_setParticle: "threads (setParticle i p s) = threads s"
  by (simp add: setParticle_def)

lemma rangePass_error:
  assumes "rangePass f a b s = Inl e" and "\<And>i s e. f i s = Inl e \<Longrightarrow> e = OutOfBounds"
  shows "e = OutOfBounds"
proof (cases "a \<le> b")
  case True
  then have "foldE f [a..<b] s = Inl e" using assms(1) by (simp add: rangePass_def)
  then show ?thesis using assms(2) by (rule foldE_error)
next
  case False
  then show ?thesis using assms(1) by (simp add: rangePass_def)
qed

lemma rangePass_Inr_inv:
  assumes "rangePass f a b s = Inr s'" and "I s"
    and "\<And>i s s'. I s \<Longrightarrow> f i s = Inr s' \<Longrightarrow> I s'"
  shows "I s'"
proof (cases "a \<le> b")
  case True
  then have "foldE f [a..<b] s = Inr s'" using assms(1) by (simp add: rangePass_def)
  then show ?thesis using assms(2,3) by (rule foldE_Inr_inv)
next
  case False
  then show ?thesis using assms(1) by (simp add: rangePass_def)
qed

lemma workers_cases:
  assumes "I s"
    and pres: "\<And>i s s'. I s \<Longrightarrow> f i s = Inr s' \<Longrightarrow> I s'"
    and err: "\<And>i s e. f i s = Inl e \<Longrightarrow> e = OutOfBounds"
  shows "workers T chunk f s = Inl OutOfBounds \<or> (\<exists>s'. workers T chunk f s = Inr s' \<and> I s')"
proof (cases "workers T chunk f s")
  case (Inl e)
  then have "e = OutOfBounds"
    unfolding workers_def
    by (rule foldE_error) (erule rangePass_error, erule err)
  then show ?thesis using Inl by simp
next
  case (Inr s')
  then have "I s'"
    unfolding workers_def using assms(1)
    by (rule foldE_Inr_inv) (erule rangePass_Inr_inv, assumption, erule pres, assumption)
  then show ?thesis using Inr by simp
qed

lemma workers_fail:
  assumes T: "0 < N" and cover: "N \<le> T * chunk"
    and I: "I s"
    and len: "\<And>s. I s \<Longrightarrow> length (particles s) = N"
    and fail: "\<And>s. I s \<Longrightarrow> f (N - 1) s = Inl OutOfBounds"
    and pres: "\<And>i s s'. I s \<Longrightarrow> f i s = Inr s' \<Longrightarrow> I s'"
    and err: "\<And>i s e. f i s = Inl e \<Longrightarrow> e = OutOfBounds"
  shows "workers T chunk f s = Inl OutOfBounds"
proof -
  have chunk: "0 < chunk" using T cover by (cases chunk) simp_all
  define t where "t = (N - 1) div chunk"
  have tT: "t < T"
  proof -
    have "N - 1 < T * chunk" using T cover by simp
    then show ?thesis unfolding t_def by (rule less_mult_imp_div_less)
  qed
  have lo: "t * chunk \<le> N - 1" unfolding t_def by simp
  have hi: "N - 1 < t * chunk + chunk"
    unfolding t_def using dividend_less_div_times [OF chunk, of "N - 1"] by simp
  show ?thesis
    unfolding workers_def
  proof (rule foldE_Inl_inv [where I = I and x = t])
    show "t \<in> set [0..<T]" using tT by simp
    show "I s" by (rule I)
    show "rangePass f (t * chunk) (min (t * chunk + chunk) (length (particles s'))) s'
            = Inl OutOfBounds" if "I s'" for s'
    proof -
      have l: "length (particles s') = N" using that by (rule len)
      have le: "t * chunk \<le> min (t * chunk + chunk) N" using lo T by simp
      have mem: "N - 1 \<in> set [t * chunk..<min (t * chunk + chunk) N]"
        using lo hi T by simp
      have "foldE f [t * chunk..<min (t * chunk + chunk) N] s' = Inl OutOfBounds"
        using mem that fail pres err by (rule foldE_Inl_inv)
      then show ?thesis using le by (simp add: rangePass_def l)
    qed
    show "I s''"
      if "I s'" and "rangePass f (y * chunk) (min (y * chunk + chunk) (length (particles s'))) s'
            = Inr s''" for y s' s''
      using that(2,1) pres by (rule rangePass_Inr_inv)
    show "e' = OutOfBounds"
      if "rangePass f (y * chunk) (min (y * chunk + chunk) (length (particles s'))) s'
            = Inl e'" for y s' e'
      using that err by (rule rangePass_error)
  qed
qed

lemma chunk_cover:
  assumes "0 < (T::nat)"
  shows "N \<le> T * ((N + T - 1) div T)"
proof -
  have "N + T - 1 = T * ((N + T - 1) div T) + (N + T - 1) mod T" by simp
  moreover have "(N + T - 1) mod T < T" using assms by simp
  ultimately show ?thesis by linarith
qed

text \<open>In a state as init leaves it, a step with N >= 1 never completes.\<close>

lemma step_out_of_bounds:
  assumes sz: "sized s" and N: "0 < length (particles s)" and T: "0 < threads s"
  shows "step s dt = Inl OutOfBounds"
proof -
  define n where "n = length (particles s)"
  define tc where "tc = threads s"
  define chunk where "chunk = (n + tc - 1) div tc"
  define I1 where "I1 = (\<lambda>s'. sized s' \<and> length (particles s') = n)"
  define I2 where "I2 = (\<lambda>s'. indexed s' \<and> length (particles s') = n)"
  have cover: "n \<le> tc * chunk"
    unfolding chunk_def using T by (intro chunk_cover) (simp add: tc_def)
  have pres1: "I1 s''" if "I1 s'" "applyExternalForces dt i s' = Inr s''" for i s' s''
    using that applyExternalForces_Inr [of dt i s']
    by (auto simp: I1_def sized_setParticle setParticle_length)
  have pres2: "I2 s''" if "I2 s'" "calculateDensities i s' = Inr s''" for i s' s''
    using that calculateDensities_Inr [of i s']
    by (auto simp: I2_def setParticle_length intro!: indexed_setParticle)
  have pres3: "I2 s''" if "I2 s'" "calculatePressureForce dt i s' = Inr s''" for i s' s''
    using that calculatePressureForce_Inr [of dt i s' s'']
    by (auto simp: I2_def setParticle_length pressureFinish_predicted intro!: indexed_setParticle)
  have err1: "e = OutOfBounds" if "applyExternalForces dt i s' = Inl e" for i s' e
    using that applyExternalForces_Inr [of dt i s'] by auto
  have err2: "e = OutOfBounds" if "calculateDensities i s' = Inl e" for i s' e
    using that calculateDensities_Inr [of i s'] by auto
  have fail3: "calculatePressureForce dt (n - 1) s' = Inl OutOfBounds" if "I2 s'" for s'
    using that N calculatePressureForce_last [of s' dt] by (simp add: I2_def n_def)
  have press: "workers tc chunk (calculatePressureForce dt) s' = Inl OutOfBounds" if "I2 s'" for s'
  proof (rule workers_fail [where I = I2 and N = n])
    show "0 < n" using N by (simp add: n_def)
    show "n \<le> tc * chunk" by (rule cover)
    show "I2 s'" by (rule that)
    show "length (particles s'') = n" if "I2 s''" for s'' using that by (simp add: I2_def)
    show "calculatePressureForce dt (n - 1) s'' = Inl OutOfBounds" if "I2 s''" for s''
      using that by (rule fail3)
    show "I2 s'''" if "I2 s''" "calculatePressureForce dt i s'' = Inr s'''" for i s'' s'''
      using that by (rule pres3)
    show "e = OutOfBounds" if "calculatePressureForce dt i s'' = Inl e" for i s'' e
      using that by (rule calculatePressureForce_error)
  qed
  have after1: "thenE (workers tc chunk calculateDensities
                   ((indexBuild s1)\<lparr>useViscosity := b\<rparr>)) (\<lambda>s4.
                 thenE (workers tc chunk (calculatePressureForce dt) s4) k) = Inl OutOfBounds"
    if "I1 s1" for s1 b k
  proof -
    have "I2 ((indexBuild s1)\<lparr>useViscosity := b\<rparr>)"
      using that indexBuild_indexed [of s1] indexBuild_length [of s1]
      by (simp add: I1_def I2_def indexed_useViscosity)
    then have "workers tc chunk calculateDensities ((indexBuild s1)\<lparr>useViscosity := b\<rparr>)
                     = Inl OutOfBounds \<or>
               (\<exists>s4. workers tc chunk calculateDensities ((indexBuild s1)\<lparr>useViscosity := b\<rparr>)
                     = Inr s4 \<and> I2 s4)"
    proof (rule workers_cases [where I = I2])
      show "I2 s''" if "I2 s'" "calculateDensities i s' = Inr s''" for i s' s''
        using that by (rule pres2)
      show "e = OutOfBounds" if "calculateDensities i s' = Inl e" for i s' e
        using that by (rule err2)
    qed
    then consider "workers tc chunk calculateDensities ((indexBuild s1)\<lparr>useViscosity := b\<rparr>)
                     = Inl OutOfBounds"
      | s4 where "workers tc chunk calculateDensities ((indexBuild s1)\<lparr>useViscosity := b\<rparr>)
                     = Inr s4" "I2 s4"
      by blast
    then show ?thesis
    proof cases
      case 1
      then show ?thesis by (simp add: thenE_def)
    next
      case 2
      then show ?thesis using press [of s4] by (simp add: thenE_def)
    qed
  qed
  have "I1 s" using sz by (simp add: I1_def n_def)
  then have "workers tc chunk (applyExternalForces dt) s = Inl OutOfBounds \<or>
             (\<exists>s1. workers tc chunk (applyExternalForces dt) s = Inr s1 \<and> I1 s1)"
  proof (rule workers_cases [where I = I1])
    show "I1 s''" if "I1 s'" "applyExternalForces dt i s' = Inr s''" for i s' s''
      using that by (rule pres1)
    show "e = OutOfBounds" if "applyExternalForces dt i s' = Inl e" for i s' e
      using that by (rule err1)
  qed
  then consider "workers tc chunk (applyExternalForces dt) s = Inl OutOfBounds"
    | s1 where "workers tc chunk (applyExternalForces dt) s = Inr s1" "I1 s1"
    by blast
  then show ?thesis
  proof cases
    case 1
    then show ?thesis
      using T by (simp add: step_def Let_def thenE_Inl tc_def chunk_def n_def)
  next
    case 2
    have st: "step s dt = thenE (workers tc chunk (applyExternalForces dt) s) (\<lambda>s1.
                  thenE (workers tc chunk calculateDensities
                     ((indexBuild s1)\<lparr>useViscosity := (viscosityStrength (config (indexBuild s1)) \<noteq> 0)\<rparr>)) (\<lambda>s4.
                     thenE (workers tc chunk (calculatePressureForce dt) s4) (\<lambda>s5.
                     thenE (if useViscosity s5
                            then thenE (workers tc chunk writeSnapshot s5)
                                   (workers tc chunk (calculateViscosity dt))
                            else Inr s5) (\<lambda>s6.
                     workers tc chunk (updatePositions dt) s6))))"
      unfolding step_def Let_def tc_def chunk_def n_def using T by simp
    show ?thesis
      unfolding st 2(1) thenE_Inr by (rule after1 [OF 2(2)])
  qed
qed

lemma step_after_init:
  "step (init hw s cfg (p # ps)) dt = Inl OutOfBounds"
  by (rule step_out_of_bounds) (simp_all add: sized_init init_fields)

text \<open>
  Claim C2 on the code. For every non-empty particle list, every configuration and every
  thread count: once the index is built, the pressure walk and the viscosity walk of the
  last particle read \<^verbatim>\<open>_particles\<close> at the index N (the walk of its own cell runs to the end
  of the last bucket, increments and then reads), and a whole step ends in an out-of-bounds
  read.
\<close>

theorem bucket_walk_reads_past_end:
  "calculatePressureForce dt (length ps) (indexBuild (init hw s0 cfg (p # ps))) = Inl OutOfBounds \<and>
   calculateViscosity dt (length ps) (indexBuild (init hw s0 cfg (p # ps))) = Inl OutOfBounds \<and>
   step (init hw s0 cfg (p # ps)) dt = Inl OutOfBounds"
proof -
  let ?s = "indexBuild (init hw s0 cfg (p # ps))"
  have ix: "indexed ?s"
    by (rule indexBuild_indexed) (rule sized_init)
  have len: "length (particles ?s) = Suc (length ps)"
    by (simp add: indexBuild_length sized_init init_fields)
  have "calculatePressureForce dt (length (particles ?s) - 1) ?s = Inl OutOfBounds"
    using ix len by (intro calculatePressureForce_last) simp_all
  moreover have "calculateViscosity dt (length (particles ?s) - 1) ?s = Inl OutOfBounds"
    using ix len by (intro calculateViscosity_last) simp_all
  ultimately show ?thesis
    using len step_after_init [of hw s0 cfg p ps dt] by simp
qed

section \<open>Properties of the pressure pass\<close>

lemma pressureNeighbor_eq:
  "pressureNeighbor s i j acc =
     (if j \<noteq> i \<and> inRange s i j
      then (vadd (vadd (fst acc) (pressureTerm s i j)) (nearPressureTerm s i j), snd acc + 1)
      else acc)"
  by (simp add: pressureNeighbor_def inRange_def pressureTerm_def nearPressureTerm_def Let_def)

lemma fold_pressureNeighbor:
  "fold (pressureNeighbor s i) js acc =
     (fold (\<lambda>j F. vadd (vadd F (pressureTerm s i j)) (nearPressureTerm s i j))
        (filter (\<lambda>j. j \<noteq> i \<and> inRange s i j) js) (fst acc),
      snd acc + int (length (filter (\<lambda>j. j \<noteq> i \<and> inRange s i j) js)))"
proof (induction js arbitrary: acc)
  case Nil
  then show ?case by simp
next
  case (Cons j js)
  show ?case
    by (simp add: Cons.IH) (simp add: pressureNeighbor_eq)
qed

lemma neighborWalk_unfold:
  "neighborWalk s body key i acc =
     (if i < length (particles s) \<and> keys s ! i = key
      then (if length (particles s) \<le> Suc i then Inl OutOfBounds
            else neighborWalk s body key (Suc i) (body (Suc i) acc))
      else Inr acc)"
  by (subst neighborWalk.simps) (simp add: Let_def)

lemma neighborWalk_trace:
  "neighborWalk s (\<lambda>j js. js @ [j]) key i js0 = Inr js \<Longrightarrow>
   \<exists>vs. js = js0 @ vs \<and> (\<forall>acc. neighborWalk s body key i acc = Inr (fold body vs acc))"
proof (induction "length (particles s) - i" arbitrary: i js0)
  case 0
  then have stop: "\<not> (i < length (particles s) \<and> keys s ! i = key)" by simp
  then have "js = js0"
    using "0.prems" by (auto simp: neighborWalk_unfold [of s _ key i] split: if_splits)
  moreover have "\<forall>acc. neighborWalk s body key i acc = Inr (fold body [] acc)"
    using stop by (auto simp: neighborWalk_unfold [of s _ key i] split: if_splits)
  ultimately show ?case by (intro exI [of _ "[]"]) simp
next
  case (Suc d)
  show ?case
  proof (cases "i < length (particles s) \<and> keys s ! i = key")
    case True
    show ?thesis
    proof (cases "length (particles s) \<le> Suc i")
      case le: True
      then show ?thesis
        using Suc.prems True by (auto simp: neighborWalk_unfold [of s _ key i] split: if_splits)
    next
      case False
      have rec: "neighborWalk s (\<lambda>j js. js @ [j]) key (Suc i) (js0 @ [Suc i]) = Inr js"
        using Suc.prems True False by (auto simp: neighborWalk_unfold [of s _ key i] split: if_splits)
      have d: "d = length (particles s) - Suc i" using Suc.hyps(2) by simp
      from Suc.hyps(1) [OF d rec]
      obtain vs where vs: "js = (js0 @ [Suc i]) @ vs"
        and all: "\<forall>acc. neighborWalk s body key (Suc i) acc = Inr (fold body vs acc)"
        by blast
      have "\<forall>acc. neighborWalk s body key i acc = Inr (fold body (Suc i # vs) acc)"
        using True False all by (auto simp: neighborWalk_unfold [of s _ key i] split: if_splits)
      then show ?thesis using vs by (intro exI [of _ "Suc i # vs"]) simp
    qed
  next
    case False
    then have "js = js0"
      using Suc.prems by (auto simp: neighborWalk_unfold [of s _ key i] split: if_splits)
    moreover have "\<forall>acc. neighborWalk s body key i acc = Inr (fold body [] acc)"
      using False by (auto simp: neighborWalk_unfold [of s _ key i] split: if_splits)
    ultimately show ?thesis by (intro exI [of _ "[]"]) simp
  qed
qed

lemma foldE_walk_trace:
  "foldE (\<lambda>off js. neighborWalk s (\<lambda>j js. js @ [j]) (K off) (A off) js) os js0 = Inr js \<Longrightarrow>
   \<exists>vs. js = js0 @ vs \<and>
     (\<forall>acc. foldE (\<lambda>off acc. neighborWalk s body (K off) (A off) acc) os acc
              = Inr (fold body vs acc))"
proof (induction os arbitrary: js0)
  case Nil
  then show ?case by simp
next
  case (Cons off os)
  from Cons.prems obtain js1
    where w: "neighborWalk s (\<lambda>j js. js @ [j]) (K off) (A off) js0 = Inr js1"
      and r: "foldE (\<lambda>off js. neighborWalk s (\<lambda>j js. js @ [j]) (K off) (A off) js) os js1 = Inr js"
    by (auto split: sum.splits)
  from neighborWalk_trace [OF w, of body]
  obtain vs1 where vs1: "js1 = js0 @ vs1"
    and a1: "\<forall>acc. neighborWalk s body (K off) (A off) acc = Inr (fold body vs1 acc)"
    by blast
  from Cons.IH [OF r]
  obtain vs2 where vs2: "js = js1 @ vs2"
    and a2: "\<forall>acc. foldE (\<lambda>off acc. neighborWalk s body (K off) (A off) acc) os acc
                 = Inr (fold body vs2 acc)"
    by blast
  have "\<forall>acc. foldE (\<lambda>off acc. neighborWalk s body (K off) (A off) acc) (off # os) acc
                 = Inr (fold body (vs1 @ vs2) acc)"
    using a1 a2 by simp
  then show ?case using vs1 vs2 by (intro exI [of _ "vs1 @ vs2"]) simp
qed

lemma neighborhoodWalk_visits:
  assumes "visits s i = Inr js"
  shows "neighborhoodWalk s body (particles s ! i) acc = Inr (fold body js acc)"
  using assms foldE_walk_trace [of s _ _ OFFSETS_3D "[]" js body]
  unfolding visits_def neighborhoodWalk_def Let_def by auto

text \<open>
  Claim C1, as the code has it. When the 27 walks of the particle at \<open>i\<close> complete, having
  read the entries \<open>js\<close> in this order, the force is built by adding, for every read of an
  entry other than \<open>i\<close> whose predicted position passes the distance test, its pressure term
  and its near-pressure term, and the neighbor count is the number of these reads. An entry
  contributes once for each time the walks read it.
\<close>

theorem pressure_contributions_per_visit:
  assumes "visits s i = Inr js"
  shows "neighborhoodWalk s (pressureNeighbor s i) (particles s ! i) (vzero, 0)
           = Inr (fold (\<lambda>j F. vadd (vadd F (pressureTerm s i j)) (nearPressureTerm s i j))
                    (filter (\<lambda>j. j \<noteq> i \<and> inRange s i j) js) vzero,
                  int (length (filter (\<lambda>j. j \<noteq> i \<and> inRange s i j) js)))"
  using neighborhoodWalk_visits [OF assms, of "pressureNeighbor s i" "(vzero, 0)"]
  by (simp add: fold_pressureNeighbor)

lemma demo_walk_empty:
  "6 \<le> a \<Longrightarrow> neighborWalk demoState body k a acc = Inr acc"
  by (simp add: neighborWalk_unfold [of demoState body k a] demoState_fields demo_len)

lemma demo_walk0:
  "neighborWalk demoState body 0 0 acc = Inr (body 2 (body 1 acc))"
proof -
  have 2: "neighborWalk demoState body 0 2 acc' = Inr acc'" for acc'
    by (simp add: neighborWalk_unfold [of demoState body 0 2] demoState_fields demo_len)
  have 1: "neighborWalk demoState body 0 1 acc' = Inr (body 2 acc')" for acc'
    using 2 [of "body 2 acc'"]
    by (simp add: neighborWalk_unfold [of demoState body 0 "Suc 0"] demoState_fields demo_len
        numeral_2_eq_2)
  show ?thesis
    using 1 [of "body 1 acc"]
    by (simp add: neighborWalk_unfold [of demoState body 0 0] demoState_fields demo_len)
qed

lemma demo_cells:
  "getCell demoState (demoParticles ! 0) = (0, 0, 0)"
  "getCell demoState (demoParticles ! 1) = (0, 0, 0)"
  by (simp_all add: getCell_def demoState_fields demoParticles_def mkParticle_def
      demoConfig_def defaultConfig_def truncInt_def)

lemma demo_neighbor_keys:
  "map (\<lambda>off. keyFromHash demoState (hash (vadd (0, 0, 0) off))) OFFSETS_3D =
   [5, 2, 5, 2, 3, 0, 5, 0, 5, 0, 5, 2, 5, 0, 5, 2, 5, 0, 5, 0, 5, 0, 1, 2, 5, 2, 5]"
  by (simp add: keyFromHash_def demoState_fields demo_len hash_def HASH_X_def HASH_Y_def
      HASH_Z_def OFFSETS_3D_def)

lemma foldE_map: "foldE (\<lambda>x. f (g x)) xs s = foldE f (map g xs) s"
  by (induction xs arbitrary: s) (simp_all split: sum.splits)

lemma demo_neighborhood:
  assumes "getCell demoState particle = (0, 0, 0)"
  shows "neighborhoodWalk demoState body particle acc =
     Inr (body 2 (body 1 (body 2 (body 1 (body 2 (body 1 (body 2 (body 1
         (body 2 (body 1 (body 2 (body 1 (body 2 (body 1 acc))))))))))))))"
proof -
  have "neighborhoodWalk demoState body particle acc =
          foldE (\<lambda>k acc'. neighborWalk demoState body k (offsets demoState ! k) acc')
            (map (\<lambda>off. keyFromHash demoState (hash (vadd (0, 0, 0) off))) OFFSETS_3D) acc"
    unfolding neighborhoodWalk_def Let_def assms
    by (rule foldE_map [where f = "\<lambda>k acc'. neighborWalk demoState body k (offsets demoState ! k) acc'"])
  also have "\<dots> = Inr (body 2 (body 1 (body 2 (body 1 (body 2 (body 1 (body 2 (body 1
         (body 2 (body 1 (body 2 (body 1 (body 2 (body 1 acc))))))))))))))"
    unfolding demo_neighbor_keys
    by (simp add: demoState_fields demo_walk_empty demo_walk0)
  finally show ?thesis .
qed

lemma demo_visits:
  "visits demoState 0 = Inr [1, 2, 1, 2, 1, 2, 1, 2, 1, 2, 1, 2, 1, 2]"
  "visits demoState 1 = Inr [1, 2, 1, 2, 1, 2, 1, 2, 1, 2, 1, 2, 1, 2]"
  using demo_neighborhood [OF demo_cells(1), of "\<lambda>j js. js @ [j]" "[]"]
    demo_neighborhood [OF demo_cells(2), of "\<lambda>j js. js @ [j]" "[]"]
  by (simp_all add: visits_def demoState_fields)

lemma demo_inRange:
  "inRange demoState 0 1" "\<not> inRange demoState 0 2"
  "inRange demoState 1 0" "\<not> inRange demoState 1 2"
  by (simp_all add: inRange_def demoState_fields demoParticles_def mkParticle_def
      demoConfig_def defaultConfig_def power2_eq_square)

theorem pressure_contributions_per_visit_witness:
  "visits demoState 0 = Inr [1, 2, 1, 2, 1, 2, 1, 2, 1, 2, 1, 2, 1, 2] \<and>
   neighborhoodWalk demoState (pressureNeighbor demoState 0) (particles demoState ! 0) (vzero, 0)
     = Inr (fold (\<lambda>j F. vadd (vadd F (pressureTerm demoState 0 j)) (nearPressureTerm demoState 0 j))
              [1, 1, 1, 1, 1, 1, 1] vzero, 7)"
proof -
  have f: "filter (\<lambda>j. j \<noteq> 0 \<and> inRange demoState 0 j) [1, 2, 1, 2, 1, 2, 1, 2, 1, 2, 1, 2, 1, 2]
             = [1, 1, 1, 1, 1, 1, 1]"
    using demo_inRange(1,2) by simp
  show ?thesis
    using demo_visits(1) pressure_contributions_per_visit [OF demo_visits(1)]
    unfolding f by simp
qed

text \<open>
  In the six-particle scenario the particles at 0 and 1 are within the radius of each
  other. The walks of the particle at 0 count the particle at 1 seven times, once for each
  of the seven cells with key 0; the walks of the particle at 1 never read the entry at 0,
  the first of its bucket: its neighbor count is 0 and its force stays zero.
\<close>

theorem neighbor_counted_seven_times_or_never:
  "(0::nat) \<noteq> 1 \<and> inRange demoState 0 1 \<and> inRange demoState 1 0 \<and>
   neighborCount demoState 0 = Inr 7 \<and>
   neighborCount demoState 1 = Inr 0 \<and>
   neighborhoodWalk demoState (pressureNeighbor demoState 1) (particles demoState ! 1) (vzero, 0)
     = Inr (vzero, 0)"
proof -
  have f0: "filter (\<lambda>j. j \<noteq> 0 \<and> inRange demoState 0 j) [1, 2, 1, 2, 1, 2, 1, 2, 1, 2, 1, 2, 1, 2]
             = [1, 1, 1, 1, 1, 1, 1]"
    using demo_inRange(1,2) by simp
  have f1: "filter (\<lambda>j. j \<noteq> 1 \<and> inRange demoState 1 j) [1, 2, 1, 2, 1, 2, 1, 2, 1, 2, 1, 2, 1, 2]
             = []"
    using demo_inRange(4) by simp
  have w0: "neighborhoodWalk demoState (pressureNeighbor demoState 0) (particles demoState ! 0)
              (vzero, 0)
            = Inr (fold (pressureNeighbor demoState 0) [1, 2, 1, 2, 1, 2, 1, 2, 1, 2, 1, 2, 1, 2]
                     (vzero, 0))"
    by (rule neighborhoodWalk_visits [OF demo_visits(1)])
  have w1: "neighborhoodWalk demoState (pressureNeighbor demoState 1) (particles demoState ! 1)
              (vzero, 0)
            = Inr (fold (pressureNeighbor demoState 1) [1, 2, 1, 2, 1, 2, 1, 2, 1, 2, 1, 2, 1, 2]
                     (vzero, 0))"
    by (rule neighborhoodWalk_visits [OF demo_visits(2)])
  have c0: "neighborCount demoState 0 = Inr 7"
    unfolding neighborCount_def w0 fold_pressureNeighbor f0 by simp
  have r1: "neighborhoodWalk demoState (pressureNeighbor demoState 1) (particles demoState ! 1)
              (vzero, 0) = Inr (vzero, 0)"
    unfolding w1 fold_pressureNeighbor f1 by simp
  have c1: "neighborCount demoState 1 = Inr 0"
    unfolding neighborCount_def r1 by simp
  show ?thesis
    using demo_inRange(1,3) c0 c1 r1 by simp
qed

section \<open>The floor bounce\<close>

text \<open>
  The step of the floor-bounce scenario ends in an out-of-bounds read; and the end of the
  pressure pass followed by the position update does not leave the velocity 1.
\<close>

theorem floor_bounce_step_fails:
  "step (init 1 initialSPH bounceConfig [bounceParticle]) (1 / 60) = Inl OutOfBounds \<and>
   vy (velocity (updatePosition bounceConfig (1 / 60)
         (pressureFinish (1 / 60) bounceParticle (vzero, 0)))) \<noteq> 1"
proof -
  have "vy (velocity (updatePosition bounceConfig (1 / 60)
         (pressureFinish (1 / 60) bounceParticle (vzero, 0)))) = 79 / 80"
    by (simp add: updatePosition_def resolveCollisions_def resolveAxis_def pressureFinish_def
        bounceConfig_def bounceParticle_def defaultConfig_def mkParticle_def vzero_def sign_def
        Let_def)
  then show ?thesis
    using step_after_init [of 1 initialSPH bounceConfig bounceParticle "[]" "1 / 60"] by simp
qed

text \<open>
  Claim C6, as the code has it. The floor-bounce particle, with any predicted position and
  densities, enters the end of the pressure pass with no force and no neighbor counted:
  the airborne drag takes its velocity from \<open>-2\<close> to \<open>-1.975\<close>, and the position update then
  puts it at \<open>y = -1\<close> with the velocity \<open>0.9875\<close> upwards.
\<close>

theorem floor_bounce_with_drag:
  "position (updatePosition bounceConfig (1 / 60)
      (pressureFinish (1 / 60)
         (bounceParticle\<lparr>predicted := pr, density := d, nearDensity := nd\<rparr>) (vzero, 0)))
     = (0, -1, 0) \<and>
   velocity (updatePosition bounceConfig (1 / 60)
      (pressureFinish (1 / 60)
         (bounceParticle\<lparr>predicted := pr, density := d, nearDensity := nd\<rparr>) (vzero, 0)))
     = (0, 79 / 80, 0)"
  by (simp add: updatePosition_def resolveCollisions_def resolveAxis_def pressureFinish_def
      bounceConfig_def bounceParticle_def defaultConfig_def mkParticle_def vzero_def sign_def
      Let_def)

end
